theory Spec2Isabelle
  imports Main "HOL-Library.Sublist"
begin

section \<open>Python values, exceptions and strings\<close>

text \<open>
  Exceptions raised inside the bridge.  Each carries the text that \<^verbatim>\<open>str(e)\<close> gives.
  \<^verbatim>\<open>KeyError\<close> carries the missing key; its text is the key in quotes.
\<close>

datatype exc =
    AttributeError string
  | KeyError string
  | TypeError string
  | ValueError string
  | OSError string
  | JSONDecodeError string
  | PyMongoError string

abbreviation (input) apos :: string where
  "apos \<equiv> [CHR 0x27]"

fun str_exc :: "exc \<Rightarrow> string" where
  "str_exc (AttributeError m) = m"
| "str_exc (KeyError k) = apos @ k @ apos"
| "str_exc (TypeError m) = m"
| "str_exc (ValueError m) = m"
| "str_exc (OSError m) = m"
| "str_exc (JSONDecodeError m) = m"
| "str_exc (PyMongoError m) = m"

text \<open>
  JSON documents as \<^verbatim>\<open>json.loads\<close> builds them and \<^verbatim>\<open>json.dumps\<close> accepts them
  (numbers are integers here).  A Python dict is the list of its items; request payloads
  and responses are dicts.
\<close>

datatype json =
    JNull
  | JBool bool
  | JInt int
  | JStr string
  | JList "json list"
  | JDict "(string \<times> json) list"

type_synonym dict = "(string \<times> json) list"

fun type_name :: "json \<Rightarrow> string" where
  "type_name JNull = ''NoneType''"
| "type_name (JBool b) = ''bool''"
| "type_name (JInt n) = ''int''"
| "type_name (JStr s) = ''str''"
| "type_name (JList xs) = ''list''"
| "type_name (JDict d) = ''dict''"

text \<open>Truth value of a Python object, as \<^verbatim>\<open>not x\<close> tests it.\<close>

fun truthy :: "json \<Rightarrow> bool" where
  "truthy JNull = False"
| "truthy (JBool b) = b"
| "truthy (JInt n) = (n \<noteq> 0)"
| "truthy (JStr s) = (s \<noteq> [])"
| "truthy (JList xs) = (xs \<noteq> [])"
| "truthy (JDict d) = (d \<noteq> [])"

text \<open>
  \<^verbatim>\<open>x.get(key, default)\<close>: defined on dicts only; any other JSON value has no
  attribute \<^verbatim>\<open>get\<close>.
\<close>

fun py_get :: "json \<Rightarrow> string \<Rightarrow> json \<Rightarrow> exc + json" where
  "py_get (JDict d) k dflt = Inr (case map_of d k of None \<Rightarrow> dflt | Some v \<Rightarrow> v)"
| "py_get v k dflt =
     Inl (AttributeError (apos @ type_name v @ apos @ '' object has no attribute '' @ apos @ ''get'' @ apos))"

text \<open>\<^verbatim>\<open>needle in hay\<close> for two strings: \<open>needle\<close> occurs as a contiguous part.\<close>

fun is_prefix :: "string \<Rightarrow> string \<Rightarrow> bool" where
  "is_prefix [] ys = True"
| "is_prefix (x # xs) [] = False"
| "is_prefix (x # xs) (y # ys) = (x = y \<and> is_prefix xs ys)"

fun substring :: "string \<Rightarrow> string \<Rightarrow> bool" where
  "substring needle [] = (needle = [])"
| "substring needle (c # cs) = (is_prefix needle (c # cs) \<or> substring needle cs)"

text \<open>
  \<^verbatim>\<open>needle in x\<close> for a string literal \<open>needle\<close> and any JSON value \<open>x\<close>: substring test
  on a string, membership in a list, key membership in a dict, \<^verbatim>\<open>TypeError\<close> otherwise.
\<close>

fun py_in :: "string \<Rightarrow> json \<Rightarrow> exc + bool" where
  "py_in needle (JStr s) = Inr (substring needle s)"
| "py_in needle (JList xs) = Inr (JStr needle \<in> set xs)"
| "py_in needle (JDict d) = Inr (needle \<in> fst ` set d)"
| "py_in needle v =
     Inl (TypeError (''argument of type '' @ apos @ type_name v @ apos @ '' is not iterable''))"

text \<open>
  Field values of stored documents are scalars: \<^verbatim>\<open>None\<close>, booleans, integers and
  strings.
\<close>

datatype pyval = PNone | PBool bool | PInt int | PStr string

type_synonym doc = "(string \<times> pyval) list"

definition doc_get :: "doc \<Rightarrow> string \<Rightarrow> pyval \<Rightarrow> pyval" where
  "doc_get d k dflt = (case map_of d k of None \<Rightarrow> dflt | Some v \<Rightarrow> v)"

subsection \<open>Decimal text of integers, \<^verbatim>\<open>str\<close> and \<^verbatim>\<open>int\<close>\<close>

definition digit_char :: "nat \<Rightarrow> char" where
  "digit_char d = ''0123456789'' ! d"

fun show_nat :: "nat \<Rightarrow> string" where
  "show_nat n = (if n < 10 then [digit_char n] else show_nat (n div 10) @ [digit_char (n mod 10)])"

declare show_nat.simps [simp del]

definition show_int :: "int \<Rightarrow> string" where
  "show_int i = (if i < 0 then CHR ''-'' # show_nat (nat (- i)) else show_nat (nat i))"

text \<open>The text the CSV writer puts in a cell: nothing for \<^verbatim>\<open>None\<close>, \<^verbatim>\<open>str(v)\<close> otherwise.\<close>

fun cell_text :: "pyval \<Rightarrow> string" where
  "cell_text PNone = []"
| "cell_text (PStr s) = s"
| "cell_text (PInt n) = show_int n"
| "cell_text (PBool b) = (if b then ''True'' else ''False'')"

text \<open>White space as \<^verbatim>\<open>int\<close> skips it around a literal (code points below 256).\<close>

definition is_space :: "char \<Rightarrow> bool" where
  "is_space c =
     (c \<in> set [CHR '' '', CHR 0x09, CHR 0x0A, CHR 0x0B, CHR 0x0C, CHR 0x0D,
                CHR 0x1C, CHR 0x1D, CHR 0x1E, CHR 0x1F, CHR 0x85, CHR 0xA0])"

definition is_digit :: "char \<Rightarrow> bool" where
  "is_digit c = ((48::nat) \<le> of_char c \<and> of_char c \<le> (57::nat))"

definition strip :: "string \<Rightarrow> string" where
  "strip s = rev (dropWhile is_space (rev (dropWhile is_space s)))"

fun digits_value :: "nat \<Rightarrow> string \<Rightarrow> nat" where
  "digits_value acc [] = acc"
| "digits_value acc (c # cs) =
     (if c = CHR ''_'' then digits_value acc cs
      else digits_value (10 * acc + (of_char c - 48)) cs)"

text \<open>
  A decimal literal as \<^verbatim>\<open>int(s)\<close> accepts it after the sign: digits, with single
  underscores allowed between digits.
\<close>

fun no_double_underscore :: "string \<Rightarrow> bool" where
  "no_double_underscore (a # b # cs) =
     (\<not> (a = CHR ''_'' \<and> b = CHR ''_'') \<and> no_double_underscore (b # cs))"
| "no_double_underscore cs = True"

definition is_decimal :: "string \<Rightarrow> bool" where
  "is_decimal s = (s \<noteq> [] \<and> list_all (\<lambda>c. is_digit c \<or> c = CHR ''_'') s \<and>
     is_digit (hd s) \<and> is_digit (last s) \<and> no_double_underscore s)"

definition int_of_string :: "string \<Rightarrow> exc + int" where
  "int_of_string s =
     (let t = strip s;
          neg = (t \<noteq> [] \<and> hd t = CHR ''-'');
          body = (if t \<noteq> [] \<and> (hd t = CHR ''-'' \<or> hd t = CHR ''+'') then tl t else t)
      in if is_decimal body
         then Inr (if neg then - int (digits_value 0 body) else int (digits_value 0 body))
         else Inl (ValueError (''invalid literal for int() with base 10: '' @ apos @ s @ apos)))"

fun py_int :: "pyval \<Rightarrow> exc + int" where
  "py_int (PInt n) = Inr n"
| "py_int (PBool b) = Inr (if b then 1 else 0)"
| "py_int (PStr s) = int_of_string s"
| "py_int PNone = Inl (TypeError
     (''int() argument must be a string, a bytes-like object or a real number, not ''
       @ apos @ ''NoneType'' @ apos))"


text \<open>Sequencing of steps that may raise: the first exception ends the computation.\<close>

definition ebind :: "exc + 'a \<Rightarrow> ('a \<Rightarrow> exc + 'b) \<Rightarrow> exc + 'b" where
  "ebind m f = (case m of Inl e \<Rightarrow> Inl e | Inr x \<Rightarrow> f x)"

fun map_exc :: "('a \<Rightarrow> exc + 'b) \<Rightarrow> 'a list \<Rightarrow> exc + 'b list" where
  "map_exc f [] = Inr []"
| "map_exc f (x # xs) = ebind (f x) (\<lambda>y. ebind (map_exc f xs) (\<lambda>ys. Inr (y # ys)))"

section \<open>Flat files\<close>

text \<open>
  A file is its text.  The writer is \<^verbatim>\<open>csv.DictWriter\<close> in its default dialect on a file
  opened with \<^verbatim>\<open>newline=''\<close>: cells joined by commas, a cell quoted when it holds a comma,
  a quote or a line break, quotes doubled inside, each row ended by CR LF.
\<close>

abbreviation (input) LF :: char where "LF \<equiv> CHR 0x0A"
abbreviation (input) CR :: char where "CR \<equiv> CHR 0x0D"
abbreviation (input) DQ :: char where "DQ \<equiv> CHR 0x22"

definition needs_quote :: "string \<Rightarrow> bool" where
  "needs_quote s = list_ex (\<lambda>c. c = CHR '','' \<or> c = DQ \<or> c = CR \<or> c = LF) s"

definition csv_cell :: "string \<Rightarrow> string" where
  "csv_cell s =
     (if needs_quote s
      then DQ # concat (map (\<lambda>c. if c = DQ then [DQ, DQ] else [c]) s) @ [DQ]
      else s)"

fun join_comma :: "string list \<Rightarrow> string" where
  "join_comma [] = []"
| "join_comma [x] = x"
| "join_comma (x # y # ys) = x @ CHR '','' # join_comma (y # ys)"

definition csv_line :: "string list \<Rightarrow> string" where
  "csv_line row = join_comma (map csv_cell row) @ [CR, LF]"

definition csv_text :: "string list list \<Rightarrow> string" where
  "csv_text rows = concat (map csv_line rows)"

text \<open>
  Reading a file opened in text mode without \<^verbatim>\<open>newline=''\<close> turns CR LF and a lone CR
  into LF.
\<close>

fun universal_newlines :: "string \<Rightarrow> string" where
  "universal_newlines [] = []"
| "universal_newlines [c] = (if c = CR then [LF] else [c])"
| "universal_newlines (c # d # cs) =
     (if c = CR \<and> d = LF then LF # universal_newlines cs
      else if c = CR then LF # universal_newlines (d # cs)
      else c # universal_newlines (d # cs))"

text \<open>
  The reader is \<^verbatim>\<open>csv.reader\<close> in the same dialect, as a scanner over the text: a record
  ends at a line break outside quotes; a blank line is the empty record; at the end of
  the text a started record is closed.
\<close>

datatype csv_state = StartRecord | StartField | InField | InQuoted | QuoteInQuoted

fun csv_scan :: "csv_state \<Rightarrow> string \<Rightarrow> string list \<Rightarrow> string \<Rightarrow> string list list" where
  "csv_scan st cur rec [] = (if st = StartRecord then [] else [rec @ [cur]])"
| "csv_scan st cur rec (c # cs) =
     (if c = LF then
        (if st = InQuoted then csv_scan InQuoted (cur @ [c]) rec cs
         else if st = StartRecord then [] # csv_scan StartRecord [] [] cs
         else (rec @ [cur]) # csv_scan StartRecord [] [] cs)
      else if st = InQuoted then
        (if c = DQ then csv_scan QuoteInQuoted cur rec cs
         else csv_scan InQuoted (cur @ [c]) rec cs)
      else if st = QuoteInQuoted then
        (if c = DQ then csv_scan InQuoted (cur @ [c]) rec cs
         else if c = CHR '','' then csv_scan StartField [] (rec @ [cur]) cs
         else csv_scan InField (cur @ [c]) rec cs)
      else if st = InField then
        (if c = CHR '','' then csv_scan StartField [] (rec @ [cur]) cs
         else csv_scan InField (cur @ [c]) rec cs)
      else
        (if c = DQ then csv_scan InQuoted cur rec cs
         else if c = CHR '','' then csv_scan StartField [] (rec @ [cur]) cs
         else csv_scan InField (cur @ [c]) rec cs))"

definition csv_reader :: "string \<Rightarrow> string list list" where
  "csv_reader text = csv_scan StartRecord [] [] (universal_newlines text)"

text \<open>
  \<^verbatim>\<open>csv.DictReader\<close>: the first record names the columns; every later non-empty record
  becomes a dict, a missing cell read as \<^verbatim>\<open>None\<close>, surplus cells not reachable by a
  column name.  With a repeated column name the last cell wins.
\<close>

type_synonym row = "(string \<times> string option) list"

definition make_row :: "string list \<Rightarrow> string list \<Rightarrow> row" where
  "make_row fieldnames cells =
     zip fieldnames (map Some cells @ replicate (length fieldnames - length cells) None)"

definition dict_reader :: "string \<Rightarrow> row list" where
  "dict_reader text =
     (case csv_reader text of
        [] \<Rightarrow> []
      | fieldnames # records \<Rightarrow> map (make_row fieldnames) (filter (\<lambda>r. r \<noteq> []) records))"

text \<open>\<^verbatim>\<open>row[key]\<close>: \<^verbatim>\<open>KeyError\<close> when the file has no such column.\<close>

definition row_get :: "row \<Rightarrow> string \<Rightarrow> exc + pyval" where
  "row_get r k =
     (case map_of (rev r) k of
        None \<Rightarrow> Inl (KeyError k)
      | Some None \<Rightarrow> Inr PNone
      | Some (Some s) \<Rightarrow> Inr (PStr s))"

text \<open>
  \<^verbatim>\<open>str.splitlines\<close> and \<^verbatim>\<open>str.split(',')\<close>, which the snapshot loader uses instead of
  the CSV reader.  Characters are code points below 256.
\<close>

definition is_linebreak :: "char \<Rightarrow> bool" where
  "is_linebreak c = (c \<in> set [LF, CR, CHR 0x0B, CHR 0x0C, CHR 0x1C, CHR 0x1D, CHR 0x1E, CHR 0x85])"

fun splitlines_from :: "string \<Rightarrow> string \<Rightarrow> string list" where
  "splitlines_from cur [] = (if cur = [] then [] else [cur])"
| "splitlines_from cur (c # cs) =
     (if is_linebreak c then cur # splitlines_from [] cs else splitlines_from (cur @ [c]) cs)"

definition splitlines :: "string \<Rightarrow> string list" where
  "splitlines s = splitlines_from [] s"

fun split_from :: "string \<Rightarrow> string \<Rightarrow> string list" where
  "split_from cur [] = [cur]"
| "split_from cur (c # cs) =
     (if c = CHR '','' then cur # split_from [] cs else split_from (cur @ [c]) cs)"

definition split_comma :: "string \<Rightarrow> string list" where
  "split_comma s = split_from [] s"

text \<open>
  The files the bridge touches: the bundled ones under \<^verbatim>\<open><BASE_DIR>/../data\<close> and the
  temporary ones under \<^verbatim>\<open>/tmp/libsearch_data\<close>.  On Windows the data directory is the
  bundled one, elsewhere the temporary one.
\<close>

datatype path = LocalBooks | LocalUsers | LocalTrans | TmpBooks | TmpUsers | TmpTrans

definition BOOKS_CSV :: "bool \<Rightarrow> path" where
  "BOOKS_CSV on_nt = (if on_nt then LocalBooks else TmpBooks)"

definition USERS_CSV :: "bool \<Rightarrow> path" where
  "USERS_CSV on_nt = (if on_nt then LocalUsers else TmpUsers)"

definition TRANS_CSV :: "bool \<Rightarrow> path" where
  "TRANS_CSV on_nt = (if on_nt then LocalTrans else TmpTrans)"

definition local_books_path :: path where
  "local_books_path = LocalBooks"

definition local_users_path :: path where
  "local_users_path = LocalUsers"

section \<open>The document store\<close>

text \<open>
  The three collections, each the list of its documents without \<^verbatim>\<open>_id\<close>, in insertion
  order.  Every operation on a store that cannot be reached raises.
\<close>

record database =
  reachable :: bool
  books :: "doc list"
  users :: "doc list"
  transactions :: "doc list"

definition store_down :: exc where
  "store_down = PyMongoError ''No servers found yet''"

definition count_documents :: "database \<Rightarrow> (database \<Rightarrow> doc list) \<Rightarrow> exc + nat" where
  "count_documents d coll = (if reachable d then Inr (length (coll d)) else Inl store_down)"

definition find_all :: "database \<Rightarrow> (database \<Rightarrow> doc list) \<Rightarrow> exc + doc list" where
  "find_all d coll = (if reachable d then Inr (coll d) else Inl store_down)"

definition insert_many_books :: "database \<Rightarrow> doc list \<Rightarrow> (exc + unit) \<times> database" where
  "insert_many_books d docs =
     (if reachable d then (Inr (), d\<lparr>books := books d @ docs\<rparr>) else (Inl store_down, d))"

definition insert_many_users :: "database \<Rightarrow> doc list \<Rightarrow> (exc + unit) \<times> database" where
  "insert_many_users d docs =
     (if reachable d then (Inr (), d\<lparr>users := users d @ docs\<rparr>) else (Inl store_down, d))"


section \<open>The engine process and the state of the bridge\<close>

text \<open>
  A line on the engine's standard output is either the JSON text of a value or a line
  that \<^verbatim>\<open>json.loads\<close> rejects, given by the decoder's message.  A request line is the
  payload that \<^verbatim>\<open>json.dumps\<close> encodes.
\<close>

datatype line = Reply json | Malformed string

text \<open>
  A process handle: whether \<^verbatim>\<open>poll()\<close> reports an exit code, whether its standard input
  refuses a write, the requests written so far, and the output lines not yet read.
  Reading at the end of the output gives the empty string, here \<open>None\<close>; a read that blocks
  for ever is outside the model.
\<close>

record proc =
  exited :: bool
  stdin_closed :: bool
  stdin_lines :: "dict list"
  stdout_lines :: "line list"

definition readline :: "proc \<Rightarrow> line option \<times> proc" where
  "readline p =
     (case stdout_lines p of
        [] \<Rightarrow> (None, p)
      | l # ls \<Rightarrow> (Some l, p\<lparr>stdout_lines := ls\<rparr>))"

text \<open>
  What the bridge does, in order: a call of \<^verbatim>\<open>send_to_backend\<close> entered and left, the
  lock \<^verbatim>\<open>BACKEND_LOCK\<close> taken and given back, and what is done to the engine.
\<close>

datatype event =
    Call dict
  | Return json
  | Acquire
  | Release
  | Poll
  | Spawn "path list"
  | Banner "line option"
  | Write dict
  | Read "line option"

text \<open>
  The module's globals and its surroundings: the platform, whether the engine executable
  exists, the store handle \<^verbatim>\<open>db\<close> (\<open>None\<close> without \<^verbatim>\<open>MONGODB_URI\<close>), the files, what the
  \<open>n\<close>-th \<^verbatim>\<open>Popen\<close> gives, the number of \<^verbatim>\<open>Popen\<close> calls so far, and the three globals of
  the source.  The test \<^verbatim>\<open>if not db\<close> is read as the test for \<open>None\<close>: a handle counts as
  true, as in the versions of the driver that allow the test.
\<close>

record world =
  on_nt :: bool
  exe_exists :: bool
  db :: "database option"
  fs :: "path \<Rightarrow> string option"
  launch :: "nat \<Rightarrow> exc + proc"
  spawned :: nat
  BACKEND_PROCESS :: "proc option"
  USE_MOCK_BACKEND :: bool
  MOCK_BOOKS :: "doc list"
  trace :: "event list"

definition write_file :: "path \<Rightarrow> string \<Rightarrow> world \<Rightarrow> world" where
  "write_file f text w = w\<lparr>fs := (fs w)(f \<mapsto> text)\<rparr>"

section \<open>Migration and rehydration\<close>

definition BOOKS_FIELDS :: "string list" where
  "BOOKS_FIELDS = [''ISBN'', ''Title'', ''Author'', ''Category'', ''Copies'']"

definition USERS_FIELDS :: "string list" where
  "USERS_FIELDS = [''UserID'', ''Name'', ''Email'', ''Type'']"

definition TRANS_FIELDS :: "string list" where
  "TRANS_FIELDS = [''TID'', ''UID'', ''BID'', ''CID'', ''Type'', ''Timestamp'']"

definition book_row :: "doc \<Rightarrow> string list" where
  "book_row b =
     map cell_text
       [doc_get b ''isbn'' PNone, doc_get b ''title'' PNone, doc_get b ''author'' PNone,
        doc_get b ''category'' PNone, doc_get b ''copies'' (PInt 1)]"

definition user_row :: "doc \<Rightarrow> string list" where
  "user_row u =
     map cell_text
       [doc_get u ''userID'' PNone, doc_get u ''name'' PNone, doc_get u ''email'' PNone,
        doc_get u ''type'' (PStr ''STUDENT'')]"

definition txn_row :: "doc \<Rightarrow> exc + string list" where
  "txn_row t =
     ebind (py_int (doc_get t ''timestamp'' (PInt 0))) (\<lambda>ts.
       Inr (map cell_text
         [doc_get t ''tid'' (PStr ''TXN_INF''), doc_get t ''userID'' PNone,
          doc_get t ''isbn'' PNone, doc_get t ''copyID'' (PStr []), doc_get t ''type'' PNone,
          PInt ts]))"

text \<open>
  The loop over the documents of one collection: each row is written as soon as it is
  built, so a row that cannot be built leaves the rows before it in the file.
\<close>

fun write_rows :: "(doc \<Rightarrow> exc + string list) \<Rightarrow> doc list \<Rightarrow> string \<Rightarrow> (exc + unit) \<times> string" where
  "write_rows f [] text = (Inr (), text)"
| "write_rows f (d # ds) text =
     (case f d of
        Inl e \<Rightarrow> (Inl e, text)
      | Inr r \<Rightarrow> write_rows f ds (text @ csv_line r))"

definition TRANS_HEADER_ONLY :: string where
  "TRANS_HEADER_ONLY = ''TID,UID,BID,CID,Type,Timestamp'' @ [LF]"

definition rehydrate_from_mongodb :: "world \<Rightarrow> (exc + unit) \<times> world" where
  "rehydrate_from_mongodb w =
     (case db w of
        None \<Rightarrow> (Inr (), w)
      | Some d \<Rightarrow>
         (case find_all d books of
            Inl e \<Rightarrow> (Inl e, w)
          | Inr bs \<Rightarrow>
             let w1 = (if bs \<noteq> []
                       then write_file (BOOKS_CSV (on_nt w))
                              (snd (write_rows (\<lambda>b. Inr (book_row b)) bs (csv_line BOOKS_FIELDS))) w
                       else w)
             in (case find_all d users of
                   Inl e \<Rightarrow> (Inl e, w1)
                 | Inr us \<Rightarrow>
                    let w2 = (if us \<noteq> []
                              then write_file (USERS_CSV (on_nt w))
                                     (snd (write_rows (\<lambda>u. Inr (user_row u)) us (csv_line USERS_FIELDS))) w1
                              else w1)
                    in (case find_all d transactions of
                          Inl e \<Rightarrow> (Inl e, w2)
                        | Inr ts \<Rightarrow>
                           if ts \<noteq> []
                           then (case write_rows txn_row ts (csv_line TRANS_FIELDS) of
                                   (r, text) \<Rightarrow> (r, write_file (TRANS_CSV (on_nt w)) text w2))
                           else (Inr (), write_file (TRANS_CSV (on_nt w)) TRANS_HEADER_ONLY w2)))))"

definition book_of_row :: "row \<Rightarrow> exc + doc" where
  "book_of_row r =
     ebind (row_get r ''ISBN'') (\<lambda>isbn.
     ebind (row_get r ''Title'') (\<lambda>title.
     ebind (row_get r ''Author'') (\<lambda>author.
     ebind (row_get r ''Category'') (\<lambda>category.
     ebind (row_get r ''Copies'') (\<lambda>copies.
     ebind (py_int copies) (\<lambda>n.
       Inr [(''isbn'', isbn), (''title'', title), (''author'', author),
            (''category'', category), (''copies'', PInt n)]))))))"

definition user_of_row :: "row \<Rightarrow> exc + doc" where
  "user_of_row r =
     ebind (row_get r ''UserID'') (\<lambda>uid.
     ebind (row_get r ''Name'') (\<lambda>name.
     ebind (row_get r ''Email'') (\<lambda>email.
     ebind (row_get r ''Type'') (\<lambda>ty.
       Inr [(''userID'', uid), (''name'', name), (''email'', email), (''type'', ty)]))))"

text \<open>The two blocks of \<^verbatim>\<open>initial_migration\<close>, on the store handle and the files.\<close>

definition migrate_books :: "(path \<Rightarrow> string option) \<Rightarrow> database \<Rightarrow> (exc + unit) \<times> database" where
  "migrate_books files d =
     (case count_documents d books of
        Inl e \<Rightarrow> (Inl e, d)
      | Inr n \<Rightarrow>
         if n = 0 then
           (case files local_books_path of
              None \<Rightarrow> (Inr (), d)
            | Some text \<Rightarrow>
               (case map_exc book_of_row (dict_reader text) of
                  Inl e \<Rightarrow> (Inl e, d)
                | Inr books_to_add \<Rightarrow>
                   if books_to_add \<noteq> [] then insert_many_books d books_to_add else (Inr (), d)))
         else (Inr (), d))"

definition migrate_users :: "(path \<Rightarrow> string option) \<Rightarrow> database \<Rightarrow> (exc + unit) \<times> database" where
  "migrate_users files d =
     (case count_documents d users of
        Inl e \<Rightarrow> (Inl e, d)
      | Inr n \<Rightarrow>
         if n = 0 then
           (case files local_users_path of
              None \<Rightarrow> (Inr (), d)
            | Some text \<Rightarrow>
               (case map_exc user_of_row (dict_reader text) of
                  Inl e \<Rightarrow> (Inl e, d)
                | Inr users_to_add \<Rightarrow>
                   if users_to_add \<noteq> [] then insert_many_users d users_to_add else (Inr (), d)))
         else (Inr (), d))"

definition initial_migration :: "world \<Rightarrow> (exc + unit) \<times> world" where
  "initial_migration w =
     (case db w of
        None \<Rightarrow> (Inr (), w)
      | Some d \<Rightarrow>
         (case migrate_books (fs w) d of
            (Inl e, d1) \<Rightarrow> (Inl e, w\<lparr>db := Some d1\<rparr>)
          | (Inr u, d1) \<Rightarrow>
             (case migrate_users (fs w) d1 of
                (r, d2) \<Rightarrow> (r, w\<lparr>db := Some d2\<rparr>))))"

section \<open>The snapshot of the degraded engine\<close>

definition mock_book :: "string \<Rightarrow> exc + doc list" where
  "mock_book ln =
     (let parts = split_comma ln in
      if length parts \<ge> 4 then
        ebind (if length parts > 4 then int_of_string (parts ! 4) else Inr 1) (\<lambda>copies.
          Inr [[(''isbn'', PStr (parts ! 0)), (''title'', PStr (parts ! 1)),
                (''author'', PStr (parts ! 2)), (''category'', PStr (parts ! 3)),
                (''copies'', PInt copies)]])
      else Inr [])"

definition load_mock_books :: "world \<Rightarrow> world" where
  "load_mock_books w =
     (case fs w local_books_path of
        None \<Rightarrow> w\<lparr>MOCK_BOOKS := []\<rparr>
      | Some text \<Rightarrow>
         (case map_exc mock_book (tl (splitlines (universal_newlines text))) of
            Inl e \<Rightarrow> w\<lparr>MOCK_BOOKS := []\<rparr>
          | Inr bss \<Rightarrow> w\<lparr>MOCK_BOOKS := MOCK_BOOKS w @ concat bss\<rparr>))"


section \<open>Starting the engine\<close>

text \<open>
  The first \<^verbatim>\<open>try\<close> block of \<^verbatim>\<open>start_backend\<close>: migration, then rehydration; an
  exception of either switches to the mock backend and keeps what was done before it.
\<close>

definition startup_sync :: "world \<Rightarrow> world" where
  "startup_sync w =
     (case initial_migration w of
        (Inl e, w1) \<Rightarrow> w1\<lparr>USE_MOCK_BACKEND := True\<rparr>
      | (Inr u, w1) \<Rightarrow>
         (case rehydrate_from_mongodb w1 of
            (Inl e, w2) \<Rightarrow> w2\<lparr>USE_MOCK_BACKEND := True\<rparr>
          | (Inr u, w2) \<Rightarrow> w2))"

text \<open>
  The second \<^verbatim>\<open>try\<close> block: \<^verbatim>\<open>Popen\<close> with the three data files as arguments, then one
  line read from the new process, the banner.  A failed \<^verbatim>\<open>Popen\<close> counts as a call and
  leaves no handle.  The working directory passed to the process plays no part here.
\<close>

definition spawn_engine :: "world \<Rightarrow> world" where
  "spawn_engine w =
     (let w1 = w\<lparr>spawned := spawned w + 1,
                 trace := trace w @ [Spawn [BOOKS_CSV (on_nt w), USERS_CSV (on_nt w), TRANS_CSV (on_nt w)]]\<rparr>
      in case launch w (spawned w) of
           Inl e \<Rightarrow> w1\<lparr>USE_MOCK_BACKEND := True\<rparr>
         | Inr p \<Rightarrow>
            (case readline p of
               (l, p1) \<Rightarrow> w1\<lparr>BACKEND_PROCESS := Some p1, trace := trace w1 @ [Banner l]\<rparr>))"

definition start_backend :: "world \<Rightarrow> world" where
  "start_backend w =
     (if \<not> exe_exists w then w\<lparr>USE_MOCK_BACKEND := True\<rparr>
      else if BACKEND_PROCESS w = None then spawn_engine (startup_sync w)
      else w)"

section \<open>One request, one response\<close>

definition failure :: "string \<Rightarrow> json" where
  "failure m = JDict [(''success'', JBool False), (''message'', JStr m)]"

definition EMPTY_OUTPUT :: json where
  "EMPTY_OUTPUT = failure ''Backend not responding (Empty Output)''"

definition none_has_no :: "string \<Rightarrow> exc" where
  "none_has_no attr =
     AttributeError (apos @ ''NoneType'' @ apos @ '' object has no attribute '' @ apos @ attr @ apos)"

text \<open>
  Lines 257 to 261: what the line read from the engine becomes.  No data is the
  empty-output response; otherwise \<^verbatim>\<open>json.loads\<close> decodes the line or raises.
\<close>

definition read_response :: "line option \<Rightarrow> exc + json" where
  "read_response l =
     (case l of
        None \<Rightarrow> Inr EMPTY_OUTPUT
      | Some (Reply j) \<Rightarrow> Inr j
      | Some (Malformed m) \<Rightarrow> Inl (JSONDecodeError m))"

text \<open>
  Lines 254 to 261: the request is written to the recorded process and flushed, one
  line is read, and the line is decoded.
\<close>

definition exchange :: "dict \<Rightarrow> world \<Rightarrow> (exc + json) \<times> world" where
  "exchange payload w =
     (case BACKEND_PROCESS w of
        None \<Rightarrow> (Inl (none_has_no ''stdin''), w)
      | Some q \<Rightarrow>
         (if stdin_closed q then (Inl (OSError ''[Errno 32] Broken pipe''), w)
          else
            (case readline (q\<lparr>stdin_lines := stdin_lines q @ [payload]\<rparr>) of
               (l, q1) \<Rightarrow>
                 (read_response l,
                  w\<lparr>BACKEND_PROCESS := Some q1,
                    trace := trace w @ [Write payload, Read l]\<rparr>))))"

text \<open>
  Lines 248 to 252: the recorded handle is polled; after an exit it is cleared and
  \<^verbatim>\<open>start_backend\<close> runs again.  Without a handle the poll raises.
\<close>

definition reset_if_dead :: "world \<Rightarrow> (exc + unit) \<times> world" where
  "reset_if_dead w =
     (case BACKEND_PROCESS w of
        None \<Rightarrow> (Inl (none_has_no ''poll''), w)
      | Some p \<Rightarrow>
         (if exited p
          then (Inr (), start_backend (w\<lparr>BACKEND_PROCESS := None, trace := trace w @ [Poll]\<rparr>))
          else (Inr (), w\<lparr>trace := trace w @ [Poll]\<rparr>)))"

text \<open>
  Lines 233 to 244: in mock mode the snapshot is loaded if it is empty and the action is
  read from the payload; nothing is returned there, and control goes on to the engine as
  in normal mode.
\<close>

definition mock_branch :: "dict \<Rightarrow> world \<Rightarrow> world" where
  "mock_branch payload w =
     (if USE_MOCK_BACKEND w
      then (if MOCK_BOOKS w = [] then load_mock_books w else w)
      else w)"

text \<open>The body of the \<^verbatim>\<open>try\<close> in \<^verbatim>\<open>send_to_backend\<close>.\<close>

definition send_body :: "dict \<Rightarrow> world \<Rightarrow> (exc + json) \<times> world" where
  "send_body payload w =
     (case reset_if_dead (start_backend (mock_branch payload w)) of
        (Inl e, w1) \<Rightarrow> (Inl e, w1)
      | (Inr u, w1) \<Rightarrow> exchange payload w1)"

text \<open>
  \<^verbatim>\<open>send_to_backend\<close>: the body under \<^verbatim>\<open>except Exception\<close>, which turns an exception into
  a failure response, inside \<^verbatim>\<open>with BACKEND_LOCK\<close>: the lock is taken before the body and
  given back when the block is left, before the function returns.
\<close>

definition resolve :: "exc + json \<Rightarrow> json" where
  "resolve res = (case res of Inl e \<Rightarrow> failure (str_exc e) | Inr j \<Rightarrow> j)"

definition send_to_backend :: "dict \<Rightarrow> world \<Rightarrow> (exc + json) \<times> world" where
  "send_to_backend payload w =
     (case send_body payload (w\<lparr>trace := trace w @ [Call payload, Acquire]\<rparr>) of
        (res, w1) \<Rightarrow>
          (Inr (resolve res), w1\<lparr>trace := trace w1 @ [Release, Return (resolve res)]\<rparr>))"

section \<open>Retry after an unknown user\<close>

definition add_user_payload :: "json \<Rightarrow> json \<Rightarrow> json \<Rightarrow> dict" where
  "add_user_payload user_id name user_type =
     [(''action'', JStr ''add_user''), (''userID'', user_id), (''name'', name),
      (''type'', user_type)]"

definition ensure_user_registered :: "json \<Rightarrow> json \<Rightarrow> json \<Rightarrow> world \<Rightarrow> world" where
  "ensure_user_registered user_id name user_type w =
     snd (send_to_backend (add_user_payload user_id name user_type) w)"

definition session_get :: "dict \<Rightarrow> string \<Rightarrow> json \<Rightarrow> json" where
  "session_get session k dflt = (case map_of session k of None \<Rightarrow> dflt | Some v \<Rightarrow> v)"

text \<open>
  The test of \<^verbatim>\<open>send_with_retry\<close>:
  \<^verbatim>\<open>not response.get("success") and ("User not found" in msg or "Invalid user" in msg)\<close>,
  evaluated left to right with Python's short cuts.
\<close>

definition user_unknown :: "json \<Rightarrow> json \<Rightarrow> exc + bool" where
  "user_unknown success msg =
     (if truthy success then Inr False
      else ebind (py_in ''User not found'' msg) (\<lambda>found.
             if found then Inr True else py_in ''Invalid user'' msg))"

definition send_with_retry :: "dict \<Rightarrow> dict \<Rightarrow> world \<Rightarrow> (exc + json) \<times> world" where
  "send_with_retry payload session w =
     (case send_to_backend payload w of
        (Inl e, w1) \<Rightarrow> (Inl e, w1)
      | (Inr response, w1) \<Rightarrow>
         (case py_get response ''message'' (JStr []) of
            Inl e \<Rightarrow> (Inl e, w1)
          | Inr msg \<Rightarrow>
             (case ebind (py_get response ''success'' JNull) (\<lambda>s. user_unknown s msg) of
                Inl e \<Rightarrow> (Inl e, w1)
              | Inr retry \<Rightarrow>
                 if retry then
                   (case map_of session ''user_id'' of
                      None \<Rightarrow> (Inr response, w1)
                    | Some user_id \<Rightarrow>
                       send_to_backend payload
                         (ensure_user_registered user_id
                            (session_get session ''name'' (JStr ''User''))
                            (session_get session ''user_type'' (JStr ''student'')) w1))
                 else (Inr response, w1))))"


section \<open>Notions used in the statements\<close>


text \<open>
  When a first response asks for the retry: it is a mapping, its \<open>success\<close> is absent or
  one of the values Python counts as false, and its \<open>message\<close> contains one of the two
  markers: as a part of a string, as an element of a list, as a key of a mapping.
\<close>

fun wants_retry :: "json \<Rightarrow> bool" where
  "wants_retry (JDict d) =
     ((case map_of d ''success'' of
         None \<Rightarrow> True
       | Some s \<Rightarrow> s \<in> set [JNull, JBool False, JInt 0, JStr [], JList [], JDict []]) \<and>
      (case map_of d ''message'' of
         Some (JStr m) \<Rightarrow> sublist ''User not found'' m \<or> sublist ''Invalid user'' m
       | Some (JList xs) \<Rightarrow> JStr ''User not found'' \<in> set xs \<or> JStr ''Invalid user'' \<in> set xs
       | Some (JDict kv) \<Rightarrow> ''User not found'' \<in> fst ` set kv \<or> ''Invalid user'' \<in> fst ` set kv
       | _ \<Rightarrow> False))"
| "wants_retry v = False"




text \<open>
  Reading the trace: the payloads of the calls, the responses returned, and whether a
  stretch of events is free of calls, returns, writes and response reads.
\<close>

fun call_payloads :: "event list \<Rightarrow> dict list" where
  "call_payloads [] = []"
| "call_payloads (Call p # es) = p # call_payloads es"
| "call_payloads (e # es) = call_payloads es"

fun returned :: "event list \<Rightarrow> json list" where
  "returned [] = []"
| "returned (Return r # es) = r # returned es"
| "returned (e # es) = returned es"

fun quiet_event :: "event \<Rightarrow> bool" where
  "quiet_event Poll = True"
| "quiet_event (Spawn args) = True"
| "quiet_event (Banner l) = True"
| "quiet_event e = False"

definition events_since :: "world \<Rightarrow> world \<Rightarrow> event list" where
  "events_since w w1 = drop (length (trace w)) (trace w1)"

section \<open>Example states\<close>

definition OK_REPLY :: json where
  "OK_REPLY = JDict [(''success'', JBool True), (''message'', JStr ''ok'')]"

definition UNKNOWN_USER :: json where
  "UNKNOWN_USER = JDict [(''success'', JBool False), (''message'', JStr ''Error: User not found'')]"

definition READY :: line where
  "READY = Malformed ''Expecting value: line 1 column 1 (char 0)''"

definition SEARCH_TOLKIEN :: dict where
  "SEARCH_TOLKIEN =
     [(''action'', JStr ''search''), (''query'', JStr ''Tolkien''), (''type'', JStr ''author'')]"

definition ISSUE_REQUEST :: dict where
  "ISSUE_REQUEST = [(''action'', JStr ''issue''), (''userID'', JStr ''U1''), (''isbn'', JStr ''978'')]"

definition NO_SUCCESS_FIELD :: json where
  "NO_SUCCESS_FIELD = JDict [(''message'', JStr ''User not found'')]"

definition SESSION_U1 :: dict where
  "SESSION_U1 = [(''user_id'', JStr ''U1''), (''name'', JStr ''Ann''), (''user_type'', JStr ''student'')]"

text \<open>A fresh engine: the banner, then one reply.\<close>

definition fresh_engine :: proc where
  "fresh_engine =
     \<lparr>exited = False, stdin_closed = False, stdin_lines = [],
      stdout_lines = [READY, Reply OK_REPLY]\<rparr>"

text \<open>A running engine that closes its output without answering.\<close>

definition silent_engine :: proc where
  "silent_engine = \<lparr>exited = False, stdin_closed = False, stdin_lines = [], stdout_lines = []\<rparr>"

text \<open>An engine that was killed.\<close>

definition dead_engine :: proc where
  "dead_engine = \<lparr>exited = True, stdin_closed = True, stdin_lines = [], stdout_lines = []\<rparr>"

text \<open>
  A running engine that does not know the user: it rejects the request, accepts the
  registration, and rejects the request again.
\<close>

definition forgetful_engine :: proc where
  "forgetful_engine =
     \<lparr>exited = False, stdin_closed = False, stdin_lines = [],
      stdout_lines = [Reply UNKNOWN_USER, Reply OK_REPLY, Reply UNKNOWN_USER, Reply OK_REPLY]\<rparr>"

text \<open>A running engine whose first answer has no \<open>success\<close> field.\<close>

definition careless_engine :: proc where
  "careless_engine =
     \<lparr>exited = False, stdin_closed = False, stdin_lines = [],
      stdout_lines = [Reply NO_SUCCESS_FIELD, Reply OK_REPLY, Reply OK_REPLY]\<rparr>"



definition BUNDLED_BOOKS :: string where
  "BUNDLED_BOOKS =
     ''ISBN,Title,Author,Category,Copies'' @ [LF] @
     ''978,The Hobbit,J.R.R. Tolkien,Fantasy,3'' @ [LF]"

definition LEGACY_USERS :: string where
  "LEGACY_USERS =
     ''UserID,Name,Email,Type'' @ [LF] @
     ''U1,Ann,ann@library.edu,student'' @ [LF] @
     ''U2,Bob,bob@library.edu,faculty'' @ [LF] @
     ''U3,Cy,cy@library.edu,STUDENT'' @ [LF]"

definition STALE_BOOKS :: string where
  "STALE_BOOKS = csv_text [BOOKS_FIELDS, [''111'', ''Old Title'', ''Old Author'', ''Old'', ''2'']]"

definition bundled_files :: "path \<Rightarrow> string option" where
  "bundled_files = [LocalBooks \<mapsto> BUNDLED_BOOKS, LocalUsers \<mapsto> LEGACY_USERS]"

text \<open>No store configured, the engine executable present, nothing started yet.\<close>

definition plain_world :: world where
  "plain_world =
     \<lparr>on_nt = False, exe_exists = True, db = None, fs = bundled_files,
      launch = (\<lambda>n. Inr fresh_engine), spawned = 0, BACKEND_PROCESS = None,
      USE_MOCK_BACKEND = False, MOCK_BOOKS = [], trace = []\<rparr>"

text \<open>The engine executable at none of the candidate paths.\<close>

definition absent_world :: world where
  "absent_world = plain_world\<lparr>exe_exists := False\<rparr>"

definition killed_world :: world where
  "killed_world = plain_world\<lparr>BACKEND_PROCESS := Some dead_engine, spawned := 1\<rparr>"

definition silent_world :: world where
  "silent_world = plain_world\<lparr>BACKEND_PROCESS := Some silent_engine, spawned := 1\<rparr>"

definition forgetful_world :: world where
  "forgetful_world = plain_world\<lparr>BACKEND_PROCESS := Some forgetful_engine, spawned := 1\<rparr>"

definition careless_world :: world where
  "careless_world = plain_world\<lparr>BACKEND_PROCESS := Some careless_engine, spawned := 1\<rparr>"



text \<open>
  A store with one book, one user without a type and one transaction, beside bundled
  files with other content; and a store with nothing in it beside a stale books file in
  the data directory.
\<close>

definition stocked_store :: database where
  "stocked_store =
     \<lparr>reachable = True,
      books = [[(''isbn'', PStr ''555''), (''title'', PStr ''Dune''), (''author'', PStr ''Herbert, Frank''),
                (''category'', PStr ''SF''), (''copies'', PInt 4)]],
      users = [[(''userID'', PStr ''U9''), (''name'', PStr ''Zed''), (''email'', PStr ''U9@library.edu'')]],
      transactions = [[(''tid'', PStr ''TXN_1''), (''userID'', PStr ''U1''), (''isbn'', PStr ''555''),
                       (''type'', PStr ''ISSUE''), (''timestamp'', PInt 1700000000)]]\<rparr>"

definition stocked_world :: world where
  "stocked_world = plain_world\<lparr>db := Some stocked_store\<rparr>"

definition empty_store :: database where
  "empty_store = \<lparr>reachable = True, books = [], users = [], transactions = []\<rparr>"

definition stale_world :: world where
  "stale_world = plain_world\<lparr>db := Some empty_store, fs := [TmpBooks \<mapsto> STALE_BOOKS]\<rparr>"

definition legacy_world :: world where
  "legacy_world = plain_world\<lparr>db := Some empty_store\<rparr>"

section \<open>What the synchronisation leaves alone\<close>

lemma initial_migration_frame:
  "on_nt (snd (initial_migration w)) = on_nt w"
  "exe_exists (snd (initial_migration w)) = exe_exists w"
  "fs (snd (initial_migration w)) = fs w"
  "launch (snd (initial_migration w)) = launch w"
  "spawned (snd (initial_migration w)) = spawned w"
  "BACKEND_PROCESS (snd (initial_migration w)) = BACKEND_PROCESS w"
  "USE_MOCK_BACKEND (snd (initial_migration w)) = USE_MOCK_BACKEND w"
  "MOCK_BOOKS (snd (initial_migration w)) = MOCK_BOOKS w"
  "trace (snd (initial_migration w)) = trace w"
  by (simp_all add: initial_migration_def split: option.splits prod.splits sum.splits)

lemma rehydrate_frame:
  "on_nt (snd (rehydrate_from_mongodb w)) = on_nt w"
  "exe_exists (snd (rehydrate_from_mongodb w)) = exe_exists w"
  "db (snd (rehydrate_from_mongodb w)) = db w"
  "launch (snd (rehydrate_from_mongodb w)) = launch w"
  "spawned (snd (rehydrate_from_mongodb w)) = spawned w"
  "BACKEND_PROCESS (snd (rehydrate_from_mongodb w)) = BACKEND_PROCESS w"
  "USE_MOCK_BACKEND (snd (rehydrate_from_mongodb w)) = USE_MOCK_BACKEND w"
  "MOCK_BOOKS (snd (rehydrate_from_mongodb w)) = MOCK_BOOKS w"
  "trace (snd (rehydrate_from_mongodb w)) = trace w"
  by (simp_all add: rehydrate_from_mongodb_def write_file_def Let_def
        split: option.splits prod.splits sum.splits)

lemma startup_sync_cases:
  "startup_sync w = snd (rehydrate_from_mongodb (snd (initial_migration w))) \<or>
   startup_sync w = (snd (rehydrate_from_mongodb (snd (initial_migration w))))\<lparr>USE_MOCK_BACKEND := True\<rparr> \<or>
   startup_sync w = (snd (initial_migration w))\<lparr>USE_MOCK_BACKEND := True\<rparr>"
  by (simp add: startup_sync_def split: prod.splits sum.splits)

lemma startup_sync_frame:
  "on_nt (startup_sync w) = on_nt w"
  "exe_exists (startup_sync w) = exe_exists w"
  "launch (startup_sync w) = launch w"
  "spawned (startup_sync w) = spawned w"
  "BACKEND_PROCESS (startup_sync w) = BACKEND_PROCESS w"
  "MOCK_BOOKS (startup_sync w) = MOCK_BOOKS w"
  "trace (startup_sync w) = trace w"
  using startup_sync_cases [of w]
  by (auto simp: initial_migration_frame rehydrate_frame)



lemma migrate_books_frame:
  "migrate_books files d = (r, d1) \<Longrightarrow>
     users d1 = users d \<and> transactions d1 = transactions d \<and> reachable d1 = reachable d \<and>
     (books d \<noteq> [] \<longrightarrow> books d1 = books d)"
  by (auto simp: migrate_books_def count_documents_def insert_many_books_def
           split: if_splits sum.splits option.splits)

lemma migrate_users_frame:
  "migrate_users files d = (r, d1) \<Longrightarrow>
     books d1 = books d \<and> transactions d1 = transactions d \<and> reachable d1 = reachable d \<and>
     (users d \<noteq> [] \<longrightarrow> users d1 = users d)"
  by (auto simp: migrate_users_def count_documents_def insert_many_users_def
           split: if_splits sum.splits option.splits)

lemma rehydrate_db: "db (snd (rehydrate_from_mongodb w)) = db w"
  by (simp add: rehydrate_from_mongodb_def write_file_def Let_def
           split: option.splits sum.splits prod.splits)

lemma startup_sync_db: "db (startup_sync w) = db (snd (initial_migration w))"
proof (cases "initial_migration w")
  case (Pair r w1)
  show ?thesis
  proof (cases r)
    case (Inl e)
    with Pair show ?thesis by (simp add: startup_sync_def)
  next
    case (Inr u)
    have "db (snd (rehydrate_from_mongodb w1)) = db w1" by (rule rehydrate_db)
    with Pair Inr show ?thesis
      by (cases "rehydrate_from_mongodb w1") (auto simp: startup_sync_def split: sum.splits)
  qed
qed

text \<open>
  Claim C5.  With a store handle, the migration (alone, and as the first half of the
  start-up synchronisation) leaves a non-empty \<open>books\<close> collection as it was and a
  non-empty \<open>users\<close> collection as it was, whatever the bundled files hold; the
  transactions are never touched.  So documents are inserted only into a collection that
  was empty when it was counted.
\<close>

theorem migration_keeps_nonempty:
  "db w = Some d \<Longrightarrow>
     \<exists>d'. db (snd (initial_migration w)) = Some d' \<and> db (startup_sync w) = Some d' \<and>
          (books d \<noteq> [] \<longrightarrow> books d' = books d) \<and>
          (users d \<noteq> [] \<longrightarrow> users d' = users d) \<and>
          transactions d' = transactions d"
proof -
  assume dw: "db w = Some d"
  obtain r1 d1 where m1: "migrate_books (fs w) d = (r1, d1)" by (cases "migrate_books (fs w) d")
  obtain r2 d2 where m2: "migrate_users (fs w) d1 = (r2, d2)" by (cases "migrate_users (fs w) d1")
  note f1 = migrate_books_frame [OF m1]
  note f2 = migrate_users_frame [OF m2]
  show ?thesis
  proof (cases r1)
    case (Inl e)
    with dw m1 have "db (snd (initial_migration w)) = Some d1"
      by (simp add: initial_migration_def)
    with f1 show ?thesis by (simp add: startup_sync_db)
  next
    case (Inr u)
    with dw m1 m2 have "db (snd (initial_migration w)) = Some d2"
      by (simp add: initial_migration_def)
    with f1 f2 show ?thesis by (simp add: startup_sync_db)
  qed
qed

theorem migration_keeps_nonempty_witness:
  "db stocked_world = Some stocked_store \<and> books stocked_store \<noteq> [] \<and>
   fs stocked_world local_books_path = Some BUNDLED_BOOKS \<and>
   (\<exists>d'. db (startup_sync stocked_world) = Some d' \<and> books d' = books stocked_store \<and>
         transactions d' = transactions stocked_store)"
proof -
  have h: "db stocked_world = Some stocked_store" by (simp add: stocked_world_def plain_world_def)
  have g: "books stocked_store \<noteq> []" by (simp add: stocked_store_def)
  have f: "fs stocked_world local_books_path = Some BUNDLED_BOOKS"
    by (simp add: stocked_world_def plain_world_def bundled_files_def local_books_path_def)
  from migration_keeps_nonempty [OF h] g h f show ?thesis by auto
qed

section \<open>Starting without a store\<close>

lemma initial_migration_no_store: "db w = None \<Longrightarrow> initial_migration w = (Inr (), w)"
  by (simp add: initial_migration_def)

lemma rehydrate_no_store: "db w = None \<Longrightarrow> rehydrate_from_mongodb w = (Inr (), w)"
  by (simp add: rehydrate_from_mongodb_def)

lemma startup_sync_no_store: "db w = None \<Longrightarrow> startup_sync w = w"
  by (simp add: startup_sync_def initial_migration_no_store rehydrate_no_store)

text \<open>
  Claim C10.  Without a store handle (\<open>db w = None\<close>) \<^verbatim>\<open>initial_migration\<close> and
  \<^verbatim>\<open>rehydrate_from_mongodb\<close> return at once, without an exception and with every
  collection, file and global as it was.  If moreover the executable exists, no process
  is recorded and \<^verbatim>\<open>Popen\<close> succeeds, \<^verbatim>\<open>start_backend\<close> records the new process with
  its banner read and changes nothing else: the mock flag stays as it was and the files
  are the ones already on disk.
\<close>

theorem no_store_start:
  "db w = None \<Longrightarrow>
     initial_migration w = (Inr (), w) \<and>
     rehydrate_from_mongodb w = (Inr (), w) \<and>
     (exe_exists w \<and> BACKEND_PROCESS w = None \<and> launch w (spawned w) = Inr p \<longrightarrow>
        start_backend w =
          w\<lparr>spawned := spawned w + 1,
            BACKEND_PROCESS := Some (snd (readline p)),
            trace := trace w @ [Spawn [BOOKS_CSV (on_nt w), USERS_CSV (on_nt w), TRANS_CSV (on_nt w)],
                                Banner (fst (readline p))]\<rparr> \<and>
        USE_MOCK_BACKEND (start_backend w) = USE_MOCK_BACKEND w \<and>
        fs (start_backend w) = fs w)"
  by (simp add: initial_migration_no_store rehydrate_no_store startup_sync_no_store
        start_backend_def spawn_engine_def split: prod.splits)

theorem no_store_start_witness:
  "db plain_world = None \<and> exe_exists plain_world \<and> BACKEND_PROCESS plain_world = None \<and>
   launch plain_world (spawned plain_world) = Inr fresh_engine \<and>
   initial_migration plain_world = (Inr (), plain_world) \<and>
   rehydrate_from_mongodb plain_world = (Inr (), plain_world) \<and>
   BACKEND_PROCESS (start_backend plain_world) = Some (fresh_engine\<lparr>stdout_lines := [Reply OK_REPLY]\<rparr>) \<and>
   \<not> USE_MOCK_BACKEND (start_backend plain_world) \<and>
   fs (start_backend plain_world) = bundled_files"
proof -
  have h: "db plain_world = None" by (simp add: plain_world_def)
  have g: "exe_exists plain_world \<and> BACKEND_PROCESS plain_world = None \<and>
      launch plain_world (spawned plain_world) = Inr fresh_engine"
    by (simp add: plain_world_def)
  from no_store_start [OF h, of fresh_engine] g h show ?thesis
    by (simp add: plain_world_def fresh_engine_def readline_def)
qed

section \<open>The events of one call\<close>

lemma load_mock_books_frame:
  "on_nt (load_mock_books w) = on_nt w"
  "exe_exists (load_mock_books w) = exe_exists w"
  "db (load_mock_books w) = db w"
  "fs (load_mock_books w) = fs w"
  "launch (load_mock_books w) = launch w"
  "spawned (load_mock_books w) = spawned w"
  "BACKEND_PROCESS (load_mock_books w) = BACKEND_PROCESS w"
  "USE_MOCK_BACKEND (load_mock_books w) = USE_MOCK_BACKEND w"
  "trace (load_mock_books w) = trace w"
  by (simp_all add: load_mock_books_def split: option.splits sum.splits)

lemma mock_branch_frame:
  "on_nt (mock_branch p w) = on_nt w"
  "exe_exists (mock_branch p w) = exe_exists w"
  "db (mock_branch p w) = db w"
  "fs (mock_branch p w) = fs w"
  "launch (mock_branch p w) = launch w"
  "spawned (mock_branch p w) = spawned w"
  "BACKEND_PROCESS (mock_branch p w) = BACKEND_PROCESS w"
  "USE_MOCK_BACKEND (mock_branch p w) = USE_MOCK_BACKEND w"
  "trace (mock_branch p w) = trace w"
  by (simp_all add: mock_branch_def load_mock_books_frame)

lemma spawn_engine_frame:
  "on_nt (spawn_engine w) = on_nt w"
  "exe_exists (spawn_engine w) = exe_exists w"
  "launch (spawn_engine w) = launch w"
  "spawned (spawn_engine w) = spawned w + 1"
  by (simp_all add: spawn_engine_def Let_def split: sum.splits prod.splits)

lemma spawn_engine_shape:
  "\<exists>evs. trace (spawn_engine w) = trace w @ evs \<and> list_all quiet_event evs"
  by (simp add: spawn_engine_def Let_def split: sum.splits prod.splits)

lemma start_backend_frame:
  "on_nt (start_backend w) = on_nt w"
  "exe_exists (start_backend w) = exe_exists w"
  "launch (start_backend w) = launch w"
  by (simp_all add: start_backend_def spawn_engine_frame startup_sync_frame)

lemma start_backend_shape:
  "\<exists>evs. trace (start_backend w) = trace w @ evs \<and> list_all quiet_event evs"
  using spawn_engine_shape [of "startup_sync w"]
  by (auto simp: start_backend_def startup_sync_frame)

lemma reset_if_dead_frame:
  "on_nt (snd (reset_if_dead w)) = on_nt w"
  "exe_exists (snd (reset_if_dead w)) = exe_exists w"
  "launch (snd (reset_if_dead w)) = launch w"
  by (simp_all add: reset_if_dead_def start_backend_frame split: option.splits)

lemma reset_if_dead_shape:
  "\<exists>evs. trace (snd (reset_if_dead w)) = trace w @ evs \<and> list_all quiet_event evs"
proof (cases "BACKEND_PROCESS w")
  case None
  then show ?thesis by (simp add: reset_if_dead_def)
next
  case (Some p)
  show ?thesis
  proof (cases "exited p")
    case True
    obtain evs where
      "trace (start_backend (w\<lparr>BACKEND_PROCESS := None, trace := trace w @ [Poll]\<rparr>)) =
         (trace w @ [Poll]) @ evs" and "list_all quiet_event evs"
      using start_backend_shape [of "w\<lparr>BACKEND_PROCESS := None, trace := trace w @ [Poll]\<rparr>"]
      by auto
    with Some True show ?thesis
      by (intro exI [of _ "Poll # evs"]) (simp add: reset_if_dead_def)
  next
    case False
    with Some show ?thesis by (simp add: reset_if_dead_def)
  qed
qed

lemma exchange_shape:
  "exchange p w = (res, w1) \<Longrightarrow>
     (trace w1 = trace w \<and> (\<exists>e. res = Inl e)) \<or>
     (\<exists>l. trace w1 = trace w @ [Write p, Read l] \<and> res = read_response l)"
  by (auto simp: exchange_def split: option.splits if_splits prod.splits)

lemma send_body_shape:
  "send_body p w = (res, w1) \<Longrightarrow>
     \<exists>evs io. trace w1 = trace w @ evs @ io \<and> list_all quiet_event evs \<and>
       ((io = [] \<and> (\<exists>e. res = Inl e)) \<or> (\<exists>l. io = [Write p, Read l] \<and> res = read_response l))"
proof -
  assume sb: "send_body p w = (res, w1)"
  let ?w2 = "start_backend (mock_branch p w)"
  obtain evs1 where e1: "trace ?w2 = trace w @ evs1" "list_all quiet_event evs1"
    using start_backend_shape [of "mock_branch p w"] by (auto simp: mock_branch_frame)
  obtain r3 w3 where rd: "reset_if_dead ?w2 = (r3, w3)" by (cases "reset_if_dead ?w2")
  obtain evs2 where e2: "trace w3 = trace ?w2 @ evs2" "list_all quiet_event evs2"
    using reset_if_dead_shape [of ?w2] rd by auto
  show ?thesis
  proof (cases r3)
    case (Inl e)
    with sb rd have "res = Inl e" "w1 = w3" by (simp_all add: send_body_def)
    with e1 e2 show ?thesis
      by (intro exI [of _ "evs1 @ evs2"] exI [of _ "[]"]) simp
  next
    case (Inr u)
    with sb rd have ex: "exchange p w3 = (res, w1)" by (simp add: send_body_def)
    from exchange_shape [OF ex] e1 e2 show ?thesis
      by (elim disjE exE conjE)
         ((intro exI [of _ "evs1 @ evs2"] exI [of _ "[]"], simp),
          (rule_tac x = "evs1 @ evs2" in exI, rule_tac x = "[Write p, Read l]" in exI, simp))
  qed
qed

lemma send_to_backend_shape:
  "\<exists>evs io r w1. send_to_backend p w = (Inr r, w1) \<and>
     trace w1 = trace w @ Call p # Acquire # evs @ io @ [Release, Return r] \<and>
     list_all quiet_event evs \<and>
     ((io = [] \<and> (\<exists>m. r = failure m)) \<or> (\<exists>l. io = [Write p, Read l] \<and> r = resolve (read_response l)))"
proof -
  obtain res w1 where sb: "send_body p (w\<lparr>trace := trace w @ [Call p, Acquire]\<rparr>) = (res, w1)"
    by (cases "send_body p (w\<lparr>trace := trace w @ [Call p, Acquire]\<rparr>)")
  from send_body_shape [OF sb] obtain evs io where
    sh: "trace w1 = (trace w @ [Call p, Acquire]) @ evs @ io" "list_all quiet_event evs"
      "(io = [] \<and> (\<exists>e. res = Inl e)) \<or> (\<exists>l. io = [Write p, Read l] \<and> res = read_response l)"
    by auto
  have "send_to_backend p w =
      (Inr (resolve res), w1\<lparr>trace := trace w1 @ [Release, Return (resolve res)]\<rparr>)"
    using sb by (simp add: send_to_backend_def)
  moreover have "(io = [] \<and> (\<exists>m. resolve res = failure m)) \<or>
      (\<exists>l. io = [Write p, Read l] \<and> resolve res = resolve (read_response l))"
    using sh(3) by (auto simp: resolve_def)
  ultimately show ?thesis using sh(1,2) by auto
qed

lemma quiet_no_read: "list_all quiet_event evs \<Longrightarrow> Read l \<notin> set evs"
  by (induction evs) auto

lemma live_call:
  assumes "BACKEND_PROCESS w = Some p" "\<not> exited p" "exe_exists w" "\<not> stdin_closed p"
    "\<not> USE_MOCK_BACKEND w"
  shows "send_to_backend payload w =
     (Inr (resolve (read_response (fst (readline p)))),
      w\<lparr>BACKEND_PROCESS := Some ((snd (readline p))\<lparr>stdin_lines := stdin_lines p @ [payload]\<rparr>),
        trace := trace w @ [Call payload, Acquire, Poll, Write payload, Read (fst (readline p)),
                            Release, Return (resolve (read_response (fst (readline p))))]\<rparr>)"
  using assms
  by (simp add: send_to_backend_def send_body_def mock_branch_def start_backend_def
        reset_if_dead_def exchange_def readline_def split: list.splits)

text \<open>
  Claim C8.  If the line read for the response holds no data (the event \<open>Read None\<close>
  among the events of the call), \<^verbatim>\<open>send_to_backend\<close> returns, without an exception,
  exactly the mapping with \<open>success\<close> false and the message
  \<open>Backend not responding (Empty Output)\<close>.
\<close>

theorem empty_output_response:
  "Read None \<in> set (events_since w (snd (send_to_backend payload w))) \<Longrightarrow>
     fst (send_to_backend payload w) =
       Inr (JDict [(''success'', JBool False),
                   (''message'', JStr ''Backend not responding (Empty Output)'')])"
proof -
  assume rd: "Read None \<in> set (events_since w (snd (send_to_backend payload w)))"
  from send_to_backend_shape [of payload w] obtain evs io r w1 where
    sh: "send_to_backend payload w = (Inr r, w1)"
      "trace w1 = trace w @ Call payload # Acquire # evs @ io @ [Release, Return r]"
      "list_all quiet_event evs"
      "(io = [] \<and> (\<exists>m. r = failure m)) \<or>
       (\<exists>l. io = [Write payload, Read l] \<and> r = resolve (read_response l))"
    by blast
  from rd sh(1,2) have "Read None \<in> set (evs @ io)" by (auto simp: events_since_def)
  with quiet_no_read [OF sh(3)] have "Read None \<in> set io" by auto
  with sh(4) have "r = resolve (read_response None)" by auto
  then show ?thesis
    using sh(1) by (simp add: resolve_def read_response_def EMPTY_OUTPUT_def failure_def)
qed

theorem empty_output_response_witness:
  "Read None \<in> set (events_since silent_world (snd (send_to_backend SEARCH_TOLKIEN silent_world))) \<and>
   fst (send_to_backend SEARCH_TOLKIEN silent_world) =
     Inr (JDict [(''success'', JBool False),
                 (''message'', JStr ''Backend not responding (Empty Output)'')])"
proof -
  have h: "Read None \<in> set (events_since silent_world (snd (send_to_backend SEARCH_TOLKIEN silent_world)))"
    by (simp add: live_call silent_world_def plain_world_def silent_engine_def events_since_def
          readline_def)
  from empty_output_response [OF h] h show ?thesis by simp
qed






section \<open>Responses are well formed\<close>




















section \<open>Restart\<close>

lemma readline_stdin:
  "readline (p\<lparr>stdin_lines := xs\<rparr>) = (fst (readline p), (snd (readline p))\<lparr>stdin_lines := xs\<rparr>)"
  by (simp add: readline_def split: list.splits)

lemma readline_fields:
  "stdin_closed (snd (readline p)) = stdin_closed p"
  "stdin_lines (snd (readline p)) = stdin_lines p"
  "exited (snd (readline p)) = exited p"
  "stdout_lines (snd (readline p)) = tl (stdout_lines p)"
  by (simp_all add: readline_def split: list.splits)

text \<open>
  Claim C3.  If the recorded process has exited when a call arrives, the executable
  exists, \<^verbatim>\<open>Popen\<close> gives a process and that process accepts input, then the call does
  exactly this, in this order, all of it while it holds the lock: it polls the old
  handle, starts one new process, reads one line (the banner) from it, writes the
  request to it and reads one more line, the response.  \<^verbatim>\<open>Popen\<close> ran once, and the recorded handle is the new process with the
  request on its input and two lines gone from its output.
\<close>

theorem restart_after_exit:
  assumes handle: "BACKEND_PROCESS w = Some p" and dead: "exited p"
    and exe: "exe_exists w" and new: "launch w (spawned w) = Inr q"
    and accepts: "\<not> stdin_closed q"
  shows "\<exists>r w1. send_to_backend payload w = (Inr r, w1) \<and>
           events_since w w1 =
             [Call payload, Acquire, Poll,
              Spawn [BOOKS_CSV (on_nt w), USERS_CSV (on_nt w), TRANS_CSV (on_nt w)],
              Banner (fst (readline q)),
              Write payload, Read (fst (readline (snd (readline q)))),
              Release, Return r] \<and>
           spawned w1 = spawned w + 1 \<and>
           BACKEND_PROCESS w1 =
             Some (q\<lparr>stdin_lines := stdin_lines q @ [payload],
                     stdout_lines := tl (tl (stdout_lines q))\<rparr>) \<and>
           r = resolve (read_response (fst (readline (snd (readline q)))))"
proof -
  let ?w0 = "w\<lparr>trace := trace w @ [Call payload, Acquire]\<rparr>"
  let ?wm = "mock_branch payload ?w0"
  let ?wc = "?wm\<lparr>BACKEND_PROCESS := None, trace := trace ?wm @ [Poll]\<rparr>"
  let ?ws = "startup_sync ?wc"
  let ?q1 = "snd (readline q)"
  let ?args = "[BOOKS_CSV (on_nt w), USERS_CSV (on_nt w), TRANS_CSV (on_nt w)]"
  have m: "BACKEND_PROCESS ?wm = Some p" "exe_exists ?wm" "trace ?wm = trace w @ [Call payload, Acquire]"
    "launch ?wm = launch w" "spawned ?wm = spawned w" "on_nt ?wm = on_nt w"
    using handle exe by (simp_all add: mock_branch_frame)
  then have s1: "start_backend ?wm = ?wm" by (simp add: start_backend_def)
  have s2: "start_backend ?wc = spawn_engine ?ws"
    using m by (simp add: start_backend_def)
  have ws: "launch ?ws = launch w" "spawned ?ws = spawned w" "on_nt ?ws = on_nt w"
    "trace ?ws = trace w @ [Call payload, Acquire, Poll]"
    using m by (simp_all add: startup_sync_frame)
  have sp: "BACKEND_PROCESS (spawn_engine ?ws) = Some ?q1"
    "trace (spawn_engine ?ws) =
       trace w @ [Call payload, Acquire, Poll, Spawn ?args, Banner (fst (readline q))]"
    "spawned (spawn_engine ?ws) = spawned w + 1"
    using ws new by (simp_all add: spawn_engine_def split_def)
  have rd: "reset_if_dead ?wm = (Inr (), spawn_engine ?ws)"
    using m dead s2 by (simp add: reset_if_dead_def)
  let ?l = "fst (readline ?q1)"
  let ?q2 = "(snd (readline ?q1))\<lparr>stdin_lines := stdin_lines ?q1 @ [payload]\<rparr>"
  let ?w5 = "(spawn_engine ?ws)\<lparr>BACKEND_PROCESS := Some ?q2,
               trace := trace (spawn_engine ?ws) @ [Write payload, Read ?l]\<rparr>"
  have ex: "exchange payload (spawn_engine ?ws) = (read_response ?l, ?w5)"
    using sp accepts by (simp add: exchange_def readline_stdin readline_fields)
  have sb: "send_body payload ?w0 = (read_response ?l, ?w5)"
    using s1 rd ex by (simp add: send_body_def)
  let ?r = "resolve (read_response ?l)"
  have eq: "send_to_backend payload w = (Inr ?r, ?w5\<lparr>trace := trace ?w5 @ [Release, Return ?r]\<rparr>)"
    using sb by (simp add: send_to_backend_def)
  have q2: "?q2 = q\<lparr>stdin_lines := stdin_lines q @ [payload], stdout_lines := tl (tl (stdout_lines q))\<rparr>"
    by (simp add: readline_def split: list.splits)
  show ?thesis
    using eq sp q2 by (simp add: events_since_def)
qed

theorem restart_after_exit_witness:
  "BACKEND_PROCESS killed_world = Some dead_engine \<and> exited dead_engine \<and>
   exe_exists killed_world \<and> launch killed_world (spawned killed_world) = Inr fresh_engine \<and>
   \<not> stdin_closed fresh_engine \<and>
   (\<exists>w1. send_to_backend ISSUE_REQUEST killed_world = (Inr OK_REPLY, w1) \<and>
      events_since killed_world w1 =
        [Call ISSUE_REQUEST, Acquire, Poll, Spawn [TmpBooks, TmpUsers, TmpTrans],
         Banner (Some READY), Write ISSUE_REQUEST, Read (Some (Reply OK_REPLY)), Release,
         Return OK_REPLY] \<and>
      spawned w1 = 2 \<and>
      BACKEND_PROCESS w1 = Some (fresh_engine\<lparr>stdin_lines := [ISSUE_REQUEST], stdout_lines := []\<rparr>))"
proof -
  have h: "BACKEND_PROCESS killed_world = Some dead_engine" "exited dead_engine"
    "exe_exists killed_world" "launch killed_world (spawned killed_world) = Inr fresh_engine"
    "\<not> stdin_closed fresh_engine"
    by (simp_all add: killed_world_def plain_world_def dead_engine_def fresh_engine_def)
  have v: "on_nt killed_world = False" "spawned killed_world = 1"
    "readline fresh_engine = (Some READY, fresh_engine\<lparr>stdout_lines := [Reply OK_REPLY]\<rparr>)"
    "readline (fresh_engine\<lparr>stdout_lines := [Reply OK_REPLY]\<rparr>) =
       (Some (Reply OK_REPLY), fresh_engine\<lparr>stdout_lines := []\<rparr>)"
    "stdout_lines fresh_engine = [READY, Reply OK_REPLY]" "stdin_lines fresh_engine = []"
    by (simp_all add: killed_world_def plain_world_def fresh_engine_def readline_def)
  from restart_after_exit [OF h, of ISSUE_REQUEST] h show ?thesis
    by (auto simp: v BOOKS_CSV_def USERS_CSV_def TRANS_CSV_def read_response_def resolve_def)
qed

section \<open>Retry\<close>

lemma call_payloads_append: "call_payloads (xs @ ys) = call_payloads xs @ call_payloads ys"
  by (induction xs rule: call_payloads.induct) simp_all

lemma returned_append: "returned (xs @ ys) = returned xs @ returned ys"
  by (induction xs rule: returned.induct) simp_all

lemma quiet_no_calls: "list_all quiet_event evs \<Longrightarrow> call_payloads evs = [] \<and> returned evs = []"
proof (induction evs)
  case Nil
  then show ?case by simp
next
  case (Cons e evs)
  then show ?case by (cases e) simp_all
qed

lemma send_to_backend_calls:
  "\<exists>r w1 es. send_to_backend p w = (Inr r, w1) \<and> trace w1 = trace w @ es \<and>
     call_payloads es = [p] \<and> returned es = [r]"
proof -
  from send_to_backend_shape [of p w] obtain evs io r w1 where
    sh: "send_to_backend p w = (Inr r, w1)"
      "trace w1 = trace w @ Call p # Acquire # evs @ io @ [Release, Return r]"
      "list_all quiet_event evs"
      "(io = [] \<and> (\<exists>m. r = failure m)) \<or>
       (\<exists>l. io = [Write p, Read l] \<and> r = resolve (read_response l))"
    by blast
  from sh(4) have io: "call_payloads io = [] \<and> returned io = []" by auto
  from quiet_no_calls [OF sh(3)] io
  have "call_payloads (Call p # Acquire # evs @ io @ [Release, Return r]) = [p] \<and>
        returned (Call p # Acquire # evs @ io @ [Release, Return r]) = [r]"
    by (simp add: call_payloads_append returned_append)
  with sh(1,2) show ?thesis by blast
qed

lemma is_prefix_prefix: "is_prefix xs ys = prefix xs ys"
  by (induction xs ys rule: is_prefix.induct) simp_all

lemma substring_sublist: "substring needle hay = sublist needle hay"
  by (induction hay) (simp_all add: is_prefix_prefix sublist_Cons_right)

lemma falsy_values:
  "(\<not> truthy v) = (v \<in> set [JNull, JBool False, JInt 0, JStr [], JList [], JDict []])"
  by (cases v) auto

text \<open>The test of lines 284 and 285 on a first response, against the condition stated.\<close>

lemma retry_test_true:
  assumes "py_get r1 ''message'' (JStr []) = Inr msg"
    and "ebind (py_get r1 ''success'' JNull) (\<lambda>s. user_unknown s msg) = Inr c"
  shows "c = wants_retry r1"
proof (cases r1)
  case (JDict d)
  let ?s = "case map_of d ''success'' of None \<Rightarrow> JNull | Some v \<Rightarrow> v"
  from JDict assms(1) have msg: "msg = (case map_of d ''message'' of None \<Rightarrow> JStr [] | Some v \<Rightarrow> v)"
    by simp
  from JDict assms(2) have u: "user_unknown ?s msg = Inr c" by (simp add: ebind_def)
  have f: "(\<not> truthy ?s) =
      (case map_of d ''success'' of None \<Rightarrow> True
       | Some s \<Rightarrow> s \<in> set [JNull, JBool False, JInt 0, JStr [], JList [], JDict []])"
    by (simp add: falsy_values split: option.splits)
  show ?thesis
  proof (cases "truthy ?s")
    case True
    with u f JDict show ?thesis by (auto simp: user_unknown_def)
  next
    case False
    with u have t: "ebind (py_in ''User not found'' msg)
        (\<lambda>found. if found then Inr True else py_in ''Invalid user'' msg) = Inr c"
      by (simp add: user_unknown_def)
    from False f have ft: "(case map_of d ''success'' of None \<Rightarrow> True
       | Some s \<Rightarrow> s \<in> set [JNull, JBool False, JInt 0, JStr [], JList [], JDict []])"
      by simp
    show ?thesis
    proof (cases "map_of d ''message''")
      case None
      with msg t JDict ft show ?thesis by (auto simp: ebind_def substring_sublist)
    next
      case (Some v)
      with msg have mv: "msg = v" by simp
      from t mv Some JDict ft show ?thesis
        by (cases v) (auto simp: ebind_def substring_sublist split: if_splits)
    qed
  qed
next
  case JNull with assms(1) show ?thesis by simp
next
  case (JBool b) with assms(1) show ?thesis by simp
next
  case (JInt n) with assms(1) show ?thesis by simp
next
  case (JStr s) with assms(1) show ?thesis by simp
next
  case (JList xs) with assms(1) show ?thesis by simp
qed

lemma retry_test_raises:
  assumes "py_get r1 ''message'' (JStr []) = Inl e \<or>
     (\<exists>msg. py_get r1 ''message'' (JStr []) = Inr msg \<and>
        ebind (py_get r1 ''success'' JNull) (\<lambda>s. user_unknown s msg) = Inl e)"
  shows "\<not> wants_retry r1 \<and>
     (\<forall>d. r1 = JDict d \<longrightarrow> map_of d ''message'' \<noteq> None \<and> (\<forall>m. map_of d ''message'' \<noteq> Some (JStr m)))"
proof (cases r1)
  case (JDict d)
  let ?s = "case map_of d ''success'' of None \<Rightarrow> JNull | Some v \<Rightarrow> v"
  let ?msg = "case map_of d ''message'' of None \<Rightarrow> JStr [] | Some v \<Rightarrow> v"
  from JDict assms have u: "user_unknown ?s ?msg = Inl e" by (auto simp: ebind_def)
  then have t: "ebind (py_in ''User not found'' ?msg)
        (\<lambda>found. if found then Inr True else py_in ''Invalid user'' ?msg) = Inl e"
    by (simp add: user_unknown_def split: if_splits)
  show ?thesis
  proof (cases "map_of d ''message''")
    case None
    with t show ?thesis by (simp add: ebind_def split: if_splits)
  next
    case (Some v)
    with t JDict show ?thesis
      by (cases v) (auto simp: ebind_def split: if_splits)
  qed
qed simp_all

text \<open>
  Claim C2, as amended.  \<^verbatim>\<open>send_with_retry\<close> makes its first call, with response \<open>r1\<close>.
  It retries exactly when \<open>r1\<close> is a mapping whose \<open>success\<close> is absent or false in
  Python's sense (false, null, 0, empty) and whose \<open>message\<close> contains \<open>User not found\<close>
  or \<open>Invalid user\<close>, and the session holds \<open>user_id\<close>.  Then exactly three calls are
  made: the payload, one \<open>add_user\<close> request with the session's \<open>user_id\<close>, its \<open>name\<close>
  (or \<open>User\<close>) and its \<open>user_type\<close> (or \<open>student\<close>), and the payload once more; the
  result is the response of the third call, whatever it is.  Otherwise exactly one call
  is made, and its response is the result when it is a mapping whose message is a string
  or absent.
\<close>

theorem retry_exactly_once:
  "\<exists>r1 w1 res w2.
     send_to_backend payload w = (Inr r1, w1) \<and>
     send_with_retry payload session w = (res, w2) \<and>
     (if wants_retry r1 \<and> map_of session ''user_id'' \<noteq> None
      then call_payloads (events_since w w2) =
             [payload,
              [(''action'', JStr ''add_user''),
               (''userID'', the (map_of session ''user_id'')),
               (''name'', case map_of session ''name'' of None \<Rightarrow> JStr ''User'' | Some v \<Rightarrow> v),
               (''type'', case map_of session ''user_type'' of None \<Rightarrow> JStr ''student'' | Some v \<Rightarrow> v)],
              payload] \<and>
           (\<exists>r2 r3. returned (events_since w w2) = [r1, r2, r3] \<and> res = Inr r3)
      else call_payloads (events_since w w2) = [payload] \<and>
           returned (events_since w w2) = [r1] \<and> w2 = w1 \<and>
           ((\<exists>d. r1 = JDict d \<and>
                 (map_of d ''message'' = None \<or> (\<exists>m. map_of d ''message'' = Some (JStr m)))) \<longrightarrow>
            res = Inr r1))"
proof -
  from send_to_backend_calls [of payload w] obtain r1 w1 es1 where
    first: "send_to_backend payload w = (Inr r1, w1)"
    and c1: "trace w1 = trace w @ es1" "call_payloads es1 = [payload]" "returned es1 = [r1]"
    by blast
  have one: "call_payloads (events_since w w1) = [payload] \<and> returned (events_since w w1) = [r1]"
    using c1 by (simp add: events_since_def)
  let ?cond = "wants_retry r1 \<and> map_of session ''user_id'' \<noteq> None"
  let ?add = "[(''action'', JStr ''add_user''),
               (''userID'', the (map_of session ''user_id'')),
               (''name'', case map_of session ''name'' of None \<Rightarrow> JStr ''User'' | Some v \<Rightarrow> v),
               (''type'', case map_of session ''user_type'' of None \<Rightarrow> JStr ''student'' | Some v \<Rightarrow> v)]"
  let ?wf = "\<exists>d. r1 = JDict d \<and>
                 (map_of d ''message'' = None \<or> (\<exists>m. map_of d ''message'' = Some (JStr m)))"
  have "\<exists>res w2. send_with_retry payload session w = (res, w2) \<and>
     (if ?cond
      then call_payloads (events_since w w2) = [payload, ?add, payload] \<and>
           (\<exists>r2 r3. returned (events_since w w2) = [r1, r2, r3] \<and> res = Inr r3)
      else call_payloads (events_since w w2) = [payload] \<and>
           returned (events_since w w2) = [r1] \<and> w2 = w1 \<and> (?wf \<longrightarrow> res = Inr r1))"
  proof (cases "py_get r1 ''message'' (JStr [])")
    case (Inl e)
    then have "\<not> wants_retry r1 \<and> \<not> ?wf" using retry_test_raises [of r1 e] by blast
    moreover have "send_with_retry payload session w = (Inl e, w1)"
      using first Inl by (simp add: send_with_retry_def)
    ultimately show ?thesis using one by auto
  next
    case (Inr msg)
    show ?thesis
    proof (cases "ebind (py_get r1 ''success'' JNull) (\<lambda>s. user_unknown s msg)")
      case (Inl e)
      then have "\<not> wants_retry r1 \<and> \<not> ?wf" using retry_test_raises [of r1 e] Inr by blast
      moreover have "send_with_retry payload session w = (Inl e, w1)"
        using first Inr Inl by (simp add: send_with_retry_def)
      ultimately show ?thesis using one by auto
    next
      case (Inr c)
      with \<open>py_get r1 ''message'' (JStr []) = Inr msg\<close> have c: "c = wants_retry r1"
        by (rule retry_test_true)
      show ?thesis
      proof (cases ?cond)
        case False
        then have "send_with_retry payload session w = (Inr r1, w1)"
          using first \<open>py_get r1 ''message'' (JStr []) = Inr msg\<close> Inr c
          by (auto simp: send_with_retry_def split: option.splits)
        with False one show ?thesis by auto
      next
        case True
        then obtain user_id where u: "map_of session ''user_id'' = Some user_id" by auto
        have add: "add_user_payload user_id (session_get session ''name'' (JStr ''User''))
                  (session_get session ''user_type'' (JStr ''student'')) = ?add"
          using u by (simp add: add_user_payload_def session_get_def)
        from send_to_backend_calls [of ?add w1] obtain r2 w2 es2 where
          c2: "send_to_backend ?add w1 = (Inr r2, w2)" "trace w2 = trace w1 @ es2"
            "call_payloads es2 = [?add]" "returned es2 = [r2]"
          by blast
        from send_to_backend_calls [of payload w2] obtain r3 w3 es3 where
          c3: "send_to_backend payload w2 = (Inr r3, w3)" "trace w3 = trace w2 @ es3"
            "call_payloads es3 = [payload]" "returned es3 = [r3]"
          by blast
        have "send_with_retry payload session w = (Inr r3, w3)"
          using first \<open>py_get r1 ''message'' (JStr []) = Inr msg\<close> Inr c True u add c2(1) c3(1)
          by (simp add: send_with_retry_def ensure_user_registered_def)
        moreover have "events_since w w3 = es1 @ es2 @ es3"
          using c1(1) c2(2) c3(2) by (simp add: events_since_def)
        ultimately show ?thesis
          using True c1 c2 c3 by (simp add: call_payloads_append returned_append)
      qed
    qed
  qed
  with first show ?thesis by blast
qed

theorem retry_exactly_once_witness:
  "fst (send_to_backend ISSUE_REQUEST forgetful_world) =
     Inr (JDict [(''success'', JBool False), (''message'', JStr ''Error: User not found'')]) \<and>
   map_of SESSION_U1 ''user_id'' = Some (JStr ''U1'') \<and>
   call_payloads (events_since forgetful_world
       (snd (send_with_retry ISSUE_REQUEST SESSION_U1 forgetful_world))) =
     [ISSUE_REQUEST,
      [(''action'', JStr ''add_user''), (''userID'', JStr ''U1''), (''name'', JStr ''Ann''),
       (''type'', JStr ''student'')],
      ISSUE_REQUEST] \<and>
   returned (events_since forgetful_world
       (snd (send_with_retry ISSUE_REQUEST SESSION_U1 forgetful_world))) =
     [UNKNOWN_USER, OK_REPLY, UNKNOWN_USER] \<and>
   fst (send_with_retry ISSUE_REQUEST SESSION_U1 forgetful_world) = Inr UNKNOWN_USER \<and>
   call_payloads (events_since forgetful_world
       (snd (send_with_retry ISSUE_REQUEST [] forgetful_world))) = [ISSUE_REQUEST] \<and>
   fst (send_with_retry ISSUE_REQUEST [] forgetful_world) = Inr UNKNOWN_USER \<and>
   fst (send_to_backend ISSUE_REQUEST silent_world) =
     Inr (JDict [(''success'', JBool False),
                 (''message'', JStr ''Backend not responding (Empty Output)'')]) \<and>
   call_payloads (events_since silent_world
       (snd (send_with_retry ISSUE_REQUEST SESSION_U1 silent_world))) = [ISSUE_REQUEST]"
proof -
  have f1: "send_to_backend ISSUE_REQUEST forgetful_world =
      (Inr UNKNOWN_USER, snd (send_to_backend ISSUE_REQUEST forgetful_world))"
    by (simp add: live_call forgetful_world_def plain_world_def forgetful_engine_def readline_def
          read_response_def resolve_def)
  have s1: "send_to_backend ISSUE_REQUEST silent_world =
      (Inr EMPTY_OUTPUT, snd (send_to_backend ISSUE_REQUEST silent_world))"
    by (simp add: live_call silent_world_def plain_world_def silent_engine_def readline_def
          read_response_def resolve_def)
  have wr: "wants_retry UNKNOWN_USER" "\<not> wants_retry EMPTY_OUTPUT"
    by (simp_all add: UNKNOWN_USER_def EMPTY_OUTPUT_def failure_def substring_sublist [symmetric])
  have u: "map_of SESSION_U1 ''user_id'' = Some (JStr ''U1'')"
    "map_of SESSION_U1 ''name'' = Some (JStr ''Ann'')"
    "map_of SESSION_U1 ''user_type'' = Some (JStr ''student'')"
    by (simp_all add: SESSION_U1_def)
  have a: "call_payloads (events_since forgetful_world
       (snd (send_with_retry ISSUE_REQUEST SESSION_U1 forgetful_world))) =
     [ISSUE_REQUEST,
      [(''action'', JStr ''add_user''), (''userID'', JStr ''U1''), (''name'', JStr ''Ann''),
       (''type'', JStr ''student'')],
      ISSUE_REQUEST]"
    using retry_exactly_once [of ISSUE_REQUEST forgetful_world SESSION_U1] f1 wr u by auto
  have b: "call_payloads (events_since forgetful_world
       (snd (send_with_retry ISSUE_REQUEST [] forgetful_world))) = [ISSUE_REQUEST] \<and>
     fst (send_with_retry ISSUE_REQUEST [] forgetful_world) = Inr UNKNOWN_USER"
    using retry_exactly_once [of ISSUE_REQUEST forgetful_world "[]"] f1
    by (auto simp: UNKNOWN_USER_def)
  have c: "call_payloads (events_since silent_world
       (snd (send_with_retry ISSUE_REQUEST SESSION_U1 silent_world))) = [ISSUE_REQUEST]"
    using retry_exactly_once [of ISSUE_REQUEST silent_world SESSION_U1] s1 wr by auto
  have res: "fst (send_with_retry ISSUE_REQUEST SESSION_U1 forgetful_world) = Inr UNKNOWN_USER"
    by (simp add: forgetful_world_def plain_world_def forgetful_engine_def live_call
        send_with_retry_def ensure_user_registered_def readline_def
        UNKNOWN_USER_def OK_REPLY_def SESSION_U1_def ebind_def user_unknown_def
        session_get_def read_response_def resolve_def)
  have ret: "returned (events_since forgetful_world
       (snd (send_with_retry ISSUE_REQUEST SESSION_U1 forgetful_world))) =
      [UNKNOWN_USER, OK_REPLY, UNKNOWN_USER]"
    by (simp add: forgetful_world_def plain_world_def forgetful_engine_def live_call
        send_with_retry_def ensure_user_registered_def readline_def
        UNKNOWN_USER_def OK_REPLY_def SESSION_U1_def ebind_def user_unknown_def
        session_get_def read_response_def resolve_def events_since_def)
  have f2: "fst (send_to_backend ISSUE_REQUEST forgetful_world) = Inr UNKNOWN_USER"
    by (subst f1) simp
  have s2: "fst (send_to_backend ISSUE_REQUEST silent_world) = Inr EMPTY_OUTPUT"
    by (subst s1) simp
  from f2 s2 u a b c res ret show ?thesis
    by (simp add: UNKNOWN_USER_def EMPTY_OUTPUT_def failure_def)
qed

text \<open>
  Claim C2 as it is worded fails: a first response without a \<open>success\<close> field, whose
  message holds the marker, is retried, although its \<open>success\<close> is not false.
\<close>

theorem retry_exactly_once_counterexample:
  "fst (send_to_backend ISSUE_REQUEST careless_world) =
     Inr (JDict [(''message'', JStr ''User not found'')]) \<and>
   map_of [(''message'', JStr ''User not found'')] ''success'' = None \<and>
   call_payloads (events_since careless_world
       (snd (send_with_retry ISSUE_REQUEST SESSION_U1 careless_world))) =
     [ISSUE_REQUEST,
      [(''action'', JStr ''add_user''), (''userID'', JStr ''U1''), (''name'', JStr ''Ann''),
       (''type'', JStr ''student'')],
      ISSUE_REQUEST]"
proof -
  have a: "fst (send_to_backend ISSUE_REQUEST careless_world) =
     Inr (JDict [(''message'', JStr ''User not found'')])"
    by (simp add: live_call careless_world_def plain_world_def careless_engine_def readline_def
          read_response_def resolve_def NO_SUCCESS_FIELD_def)
  have b: "call_payloads (events_since careless_world
       (snd (send_with_retry ISSUE_REQUEST SESSION_U1 careless_world))) =
     [ISSUE_REQUEST,
      [(''action'', JStr ''add_user''), (''userID'', JStr ''U1''), (''name'', JStr ''Ann''),
       (''type'', JStr ''student'')],
      ISSUE_REQUEST]"
    by (simp add: careless_world_def plain_world_def careless_engine_def live_call
        send_with_retry_def ensure_user_registered_def readline_def add_user_payload_def
        NO_SUCCESS_FIELD_def OK_REPLY_def SESSION_U1_def ebind_def user_unknown_def
        session_get_def read_response_def resolve_def events_since_def)
  from a b show ?thesis by simp
qed

section \<open>Reading back what the writer wrote\<close>

lemma un_Cons: "c \<noteq> CR \<Longrightarrow> universal_newlines (c # xs) = c # universal_newlines xs"
  by (cases xs) simp_all

lemma un_append:
  "\<not> (xs \<noteq> [] \<and> last xs = CR \<and> ys \<noteq> [] \<and> hd ys = LF) \<Longrightarrow>
     universal_newlines (xs @ ys) = universal_newlines xs @ universal_newlines ys"
proof (induction xs rule: universal_newlines.induct)
  case 1
  then show ?case by simp
next
  case (2 c)
  then show ?case by (cases ys) auto
next
  case (3 c d cs)
  then show ?case by (auto split: if_splits)
qed

lemma un_plain: "CR \<notin> set s \<Longrightarrow> universal_newlines s = s"
  by (induction s rule: universal_newlines.induct) auto

lemma un_escape:
  "universal_newlines (concat (map (\<lambda>c. if c = DQ then [DQ, DQ] else [c]) s)) =
     concat (map (\<lambda>c. if c = DQ then [DQ, DQ] else [c]) (universal_newlines s))"
  by (induction s rule: universal_newlines.induct) (auto simp: un_Cons)

lemma scan_quoted:
  "csv_scan InQuoted cur rec (concat (map (\<lambda>c. if c = DQ then [DQ, DQ] else [c]) s) @ rest) =
     csv_scan InQuoted (cur @ s) rec rest"
  by (induction s arbitrary: cur) auto

lemma scan_plain:
  "\<forall>c \<in> set s. c \<noteq> CHR '','' \<and> c \<noteq> DQ \<and> c \<noteq> LF \<Longrightarrow>
     csv_scan InField cur rec (s @ rest) = csv_scan InField (cur @ s) rec rest"
  by (induction s arbitrary: cur) auto

lemma csv_cell_last: "csv_cell s = [] \<or> last (csv_cell s) \<noteq> CR"
  by (cases "s = []") (auto simp: csv_cell_def needs_quote_def list_ex_iff)

lemma un_cell:
  "universal_newlines (csv_cell s) =
     (if needs_quote s
      then DQ # concat (map (\<lambda>c. if c = DQ then [DQ, DQ] else [c]) (universal_newlines s)) @ [DQ]
      else s)"
proof (cases "needs_quote s")
  case True
  let ?e = "concat (map (\<lambda>c. if c = DQ then [DQ, DQ] else [c]) s)"
  have "universal_newlines (DQ # ?e @ [DQ]) = DQ # universal_newlines (?e @ [DQ])"
    by (rule un_Cons) simp
  also have "universal_newlines (?e @ [DQ]) = universal_newlines ?e @ universal_newlines [DQ]"
    by (rule un_append) simp
  finally show ?thesis using True by (simp add: csv_cell_def un_escape)
next
  case False
  then have "CR \<notin> set s" by (auto simp: needs_quote_def list_ex_iff)
  with False show ?thesis by (simp add: csv_cell_def un_plain)
qed

lemma plain_cell:
  "\<not> needs_quote s \<Longrightarrow> \<forall>c \<in> set s. c \<noteq> CHR '','' \<and> c \<noteq> DQ \<and> c \<noteq> LF"
  by (auto simp: needs_quote_def list_ex_iff)

lemma scan_start:
  assumes "st = StartRecord \<or> st = StartField"
  shows "csv_scan st cur rec (DQ # cs) = csv_scan InQuoted cur rec cs"
    and "csv_scan st cur rec (CHR '','' # cs) = csv_scan StartField [] (rec @ [cur]) cs"
    and "c \<noteq> LF \<Longrightarrow> c \<noteq> DQ \<Longrightarrow> c \<noteq> CHR '','' \<Longrightarrow>
         csv_scan st cur rec (c # cs) = csv_scan InField (cur @ [c]) rec cs"
  using assms by auto

lemma scan_end:
  "csv_scan StartField cur rec (LF # cs) = (rec @ [cur]) # csv_scan StartRecord [] [] cs"
  "csv_scan InField cur rec (LF # cs) = (rec @ [cur]) # csv_scan StartRecord [] [] cs"
  "csv_scan QuoteInQuoted cur rec (LF # cs) = (rec @ [cur]) # csv_scan StartRecord [] [] cs"
  "csv_scan InField cur rec (CHR '','' # cs) = csv_scan StartField [] (rec @ [cur]) cs"
  "csv_scan QuoteInQuoted cur rec (CHR '','' # cs) = csv_scan StartField [] (rec @ [cur]) cs"
  "csv_scan InQuoted cur rec (DQ # cs) = csv_scan QuoteInQuoted cur rec cs"
  by simp_all

lemma scan_quoted_cell:
  assumes "st = StartRecord \<or> st = StartField"
  shows "csv_scan st [] rec
      (DQ # concat (map (\<lambda>c. if c = DQ then [DQ, DQ] else [c]) s) @ DQ # rest) =
     csv_scan QuoteInQuoted s rec rest"
proof -
  have "csv_scan st [] rec
      (DQ # concat (map (\<lambda>c. if c = DQ then [DQ, DQ] else [c]) s) @ DQ # rest) =
     csv_scan InQuoted [] rec (concat (map (\<lambda>c. if c = DQ then [DQ, DQ] else [c]) s) @ DQ # rest)"
    by (rule scan_start(1) [OF assms])
  also have "\<dots> = csv_scan InQuoted ([] @ s) rec (DQ # rest)"
    by (rule scan_quoted)
  also have "\<dots> = csv_scan QuoteInQuoted s rec rest"
    by (simp only: append_Nil scan_end(6))
  finally show ?thesis .
qed

lemma scan_plain_cell:
  assumes st: "st = StartRecord \<or> st = StartField"
    and pl: "\<forall>c \<in> set s. c \<noteq> CHR '','' \<and> c \<noteq> DQ \<and> c \<noteq> LF" and ne: "s \<noteq> []"
  shows "csv_scan st [] rec (s @ rest) = csv_scan InField s rec rest"
proof -
  from ne obtain x xs where s: "s = x # xs" by (cases s) auto
  with pl have x: "x \<noteq> LF" "x \<noteq> DQ" "x \<noteq> CHR '',''"
    and xs: "\<forall>c \<in> set xs. c \<noteq> CHR '','' \<and> c \<noteq> DQ \<and> c \<noteq> LF" by auto
  have "csv_scan st [] rec (x # (xs @ rest)) = csv_scan InField ([] @ [x]) rec (xs @ rest)"
    by (rule scan_start(3) [OF st x])
  also have "\<dots> = csv_scan InField (([] @ [x]) @ xs) rec rest"
    by (rule scan_plain [OF xs])
  finally show ?thesis using s by simp
qed

lemma scan_cell_comma:
  assumes st: "st = StartRecord \<or> st = StartField"
  shows "csv_scan st [] rec (universal_newlines (csv_cell s) @ CHR '','' # rest) =
     csv_scan StartField [] (rec @ [universal_newlines s]) rest"
proof (cases "needs_quote s")
  case True
  then have "universal_newlines (csv_cell s) @ CHR '','' # rest =
      DQ # concat (map (\<lambda>c. if c = DQ then [DQ, DQ] else [c]) (universal_newlines s)) @
        DQ # CHR '','' # rest"
    by (simp add: un_cell)
  then show ?thesis
    by (simp only: scan_quoted_cell [OF st] scan_end(5))
next
  case False
  then have "CR \<notin> set s" by (auto simp: needs_quote_def list_ex_iff)
  then have ns: "universal_newlines s = s" by (rule un_plain)
  from False have uc: "universal_newlines (csv_cell s) = s" by (simp add: un_cell)
  note pl = plain_cell [OF False]
  show ?thesis
  proof (cases "s = []")
    case True
    with uc show ?thesis by (simp only: append_Nil scan_start(2) [OF st] universal_newlines.simps(1))
  next
    case False
    from scan_plain_cell [OF st pl False]
    have "csv_scan st [] rec (s @ CHR '','' # rest) = csv_scan InField s rec (CHR '','' # rest)" .
    then show ?thesis by (simp only: uc ns scan_end(4))
  qed
qed

lemma scan_cell_lf:
  assumes st: "st = StartField \<or> (st = StartRecord \<and> s \<noteq> [])"
  shows "csv_scan st [] rec (universal_newlines (csv_cell s) @ LF # rest) =
     (rec @ [universal_newlines s]) # csv_scan StartRecord [] [] rest"
proof (cases "needs_quote s")
  case True
  from st have st': "st = StartRecord \<or> st = StartField" by auto
  from True have "universal_newlines (csv_cell s) @ LF # rest =
      DQ # concat (map (\<lambda>c. if c = DQ then [DQ, DQ] else [c]) (universal_newlines s)) @
        DQ # LF # rest"
    by (simp add: un_cell)
  then show ?thesis
    by (simp only: scan_quoted_cell [OF st'] scan_end(3))
next
  case False
  then have "CR \<notin> set s" by (auto simp: needs_quote_def list_ex_iff)
  then have ns: "universal_newlines s = s" by (rule un_plain)
  from False have uc: "universal_newlines (csv_cell s) = s" by (simp add: un_cell)
  note pl = plain_cell [OF False]
  show ?thesis
  proof (cases "s = []")
    case True
    with st have "st = StartField" by auto
    with True uc show ?thesis by (simp only: append_Nil scan_end(1) universal_newlines.simps(1))
  next
    case False
    from st have st': "st = StartRecord \<or> st = StartField" by auto
    from scan_plain_cell [OF st' pl False]
    have "csv_scan st [] rec (s @ LF # rest) = csv_scan InField s rec (LF # rest)" .
    then show ?thesis by (simp only: uc ns scan_end(2))
  qed
qed

lemma scan_cells:
  "cs \<noteq> [] \<Longrightarrow> st = StartField \<or> (st = StartRecord \<and> cs \<noteq> [[]]) \<Longrightarrow>
     csv_scan st [] rec
       (universal_newlines (join_comma (map csv_cell cs) @ CR # LF # rest)) =
     (rec @ map universal_newlines cs) # csv_scan StartRecord [] [] (universal_newlines rest)"
proof (induction cs arbitrary: st rec)
  case Nil
  then show ?case by simp
next
  case (Cons c cs)
  show ?case
  proof (cases cs)
    case Nil
    have "universal_newlines (csv_cell c @ CR # LF # rest) =
        universal_newlines (csv_cell c) @ universal_newlines (CR # LF # rest)"
      using csv_cell_last [of c] by (intro un_append) auto
    then have e: "universal_newlines (csv_cell c @ CR # LF # rest) =
        universal_newlines (csv_cell c) @ LF # universal_newlines rest"
      by simp
    from Cons.prems Nil have st: "st = StartField \<or> (st = StartRecord \<and> c \<noteq> [])" by auto
    have "csv_scan st [] rec (universal_newlines (csv_cell c) @ LF # universal_newlines rest) =
        (rec @ [universal_newlines c]) # csv_scan StartRecord [] [] (universal_newlines rest)"
      by (rule scan_cell_lf [OF st])
    with e Nil show ?thesis by (simp del: csv_scan.simps)
  next
    case (Cons c' cs')
    let ?more = "join_comma (map csv_cell cs) @ CR # LF # rest"
    have "universal_newlines (csv_cell c @ CHR '','' # ?more) =
        universal_newlines (csv_cell c) @ universal_newlines (CHR '','' # ?more)"
      by (intro un_append) auto
    then have e: "universal_newlines (csv_cell c @ CHR '','' # ?more) =
        universal_newlines (csv_cell c) @ CHR '','' # universal_newlines ?more"
      by (simp add: un_Cons)
    from Cons.prems have st: "st = StartRecord \<or> st = StartField" by auto
    have ih: "csv_scan StartField [] (rec @ [universal_newlines c]) (universal_newlines ?more) =
        ((rec @ [universal_newlines c]) @ map universal_newlines cs) #
          csv_scan StartRecord [] [] (universal_newlines rest)"
      using Cons by (intro Cons.IH) auto
    have sc: "csv_scan st [] rec (universal_newlines (csv_cell c) @ CHR '','' # universal_newlines ?more) =
        csv_scan StartField [] (rec @ [universal_newlines c]) (universal_newlines ?more)"
      by (rule scan_cell_comma [OF st])
    have line: "join_comma (map csv_cell (c # cs)) @ CR # LF # rest = csv_cell c @ CHR '','' # ?more"
      using Cons by simp
    show ?thesis
      by (simp only: line e sc ih) simp
  qed
qed

lemma csv_reader_csv_text:
  "\<forall>r \<in> set rows. 2 \<le> length r \<Longrightarrow>
     csv_reader (csv_text rows) = map (map universal_newlines) rows"
proof -
  assume wide: "\<forall>r \<in> set rows. 2 \<le> length r"
  then have "csv_scan StartRecord [] [] (universal_newlines (csv_text rows)) =
      map (map universal_newlines) rows"
  proof (induction rows)
    case Nil
    then show ?case by (simp add: csv_text_def)
  next
    case (Cons r rows)
    then have r: "r \<noteq> []" "StartRecord = StartField \<or> (StartRecord = StartRecord \<and> r \<noteq> [[]])"
      by auto
    have t: "csv_text (r # rows) = join_comma (map csv_cell r) @ CR # LF # csv_text rows"
      by (simp add: csv_text_def csv_line_def)
    from Cons have ih: "csv_scan StartRecord [] [] (universal_newlines (csv_text rows)) =
        map (map universal_newlines) rows" by simp
    have "csv_scan StartRecord [] []
        (universal_newlines (join_comma (map csv_cell r) @ CR # LF # csv_text rows)) =
      ([] @ map universal_newlines r) # csv_scan StartRecord [] [] (universal_newlines (csv_text rows))"
      by (rule scan_cells [OF r])
    with t ih show ?case by (simp del: csv_scan.simps)
  qed
  then show ?thesis by (simp add: csv_reader_def)
qed

section \<open>Rehydrated files\<close>

lemma write_rows_total:
  "write_rows (\<lambda>b. Inr (g b)) ds acc = (Inr (), acc @ csv_text (map g ds))"
  by (induction ds arbitrary: acc) (simp_all add: csv_text_def)

lemma write_rows_ok:
  "map_exc f ds = Inr rows \<Longrightarrow> write_rows f ds acc = (Inr (), acc @ csv_text rows)"
proof (induction ds arbitrary: acc rows)
  case Nil
  then show ?case by (simp add: csv_text_def)
next
  case (Cons d ds)
  then show ?case
    by (auto simp: ebind_def csv_text_def split: sum.splits)
qed

lemma map_exc_length: "map_exc f ds = Inr rows \<Longrightarrow> length rows = length ds"
  by (induction ds arbitrary: rows) (auto simp: ebind_def split: sum.splits)

lemma data_paths_distinct:
  "BOOKS_CSV b \<noteq> USERS_CSV b" "BOOKS_CSV b \<noteq> TRANS_CSV b" "USERS_CSV b \<noteq> TRANS_CSV b"
  by (simp_all add: BOOKS_CSV_def USERS_CSV_def TRANS_CSV_def)

lemma map_exc_set:
  "map_exc f ds = Inr rows \<Longrightarrow> \<forall>r \<in> set rows. \<exists>d \<in> set ds. f d = Inr r"
  by (induction ds arbitrary: rows) (auto simp: ebind_def split: sum.splits)

lemma txn_row_length: "txn_row t = Inr r \<Longrightarrow> length r = 6"
  by (auto simp: txn_row_def ebind_def split: sum.splits)

lemma read_back:
  assumes "2 \<le> length header" "\<forall>r \<in> set rows. 2 \<le> length r"
    and "map universal_newlines header = header"
  shows "hd (csv_reader (csv_text (header # rows))) = header \<and>
     length (tl (csv_reader (csv_text (header # rows)))) = length rows"
proof -
  from assms(1,2) have "\<forall>r \<in> set (header # rows). 2 \<le> length r" by simp
  then have "csv_reader (csv_text (header # rows)) = map (map universal_newlines) (header # rows)"
    by (rule csv_reader_csv_text)
  with assms(3) show ?thesis by simp
qed

lemma header_only_read:
  "csv_reader (''TID,UID,BID,CID,Type,Timestamp'' @ [LF]) =
     [[''TID'', ''UID'', ''BID'', ''CID'', ''Type'', ''Timestamp'']]"
  by (simp add: csv_reader_def)


text \<open>
  Claim C4, as amended.  With a reachable store, rehydration overwrites the books file
  (the users file) with the header row \<open>ISBN,Title,Author,Category,Copies\<close>
  (\<open>UserID,Name,Email,Type\<close>) and one row per document when the collection is not empty,
  and leaves the file as it was when the collection is empty.  The transactions file is
  overwritten with the header row \<open>TID,UID,BID,CID,Type,Timestamp\<close> and one row per
  document when the collection is not empty and every timestamp converts to an integer,
  and with that header line alone when the collection is empty.  Read back as CSV, a
  file that was written has exactly that header as its first record and as many records
  after it as the collection has documents.
\<close>

theorem rehydrate_files:
  "db w = Some d \<Longrightarrow> reachable d \<Longrightarrow>
     (books d \<noteq> [] \<longrightarrow>
        (\<exists>file. fs (snd (rehydrate_from_mongodb w)) (BOOKS_CSV (on_nt w)) = Some file \<and>
           file = csv_text ([''ISBN'', ''Title'', ''Author'', ''Category'', ''Copies'']
                            # map book_row (books d)) \<and>
           hd (csv_reader file) = [''ISBN'', ''Title'', ''Author'', ''Category'', ''Copies''] \<and>
           length (tl (csv_reader file)) = length (books d))) \<and>
     (users d \<noteq> [] \<longrightarrow>
        (\<exists>file. fs (snd (rehydrate_from_mongodb w)) (USERS_CSV (on_nt w)) = Some file \<and>
           file = csv_text ([''UserID'', ''Name'', ''Email'', ''Type''] # map user_row (users d)) \<and>
           hd (csv_reader file) = [''UserID'', ''Name'', ''Email'', ''Type''] \<and>
           length (tl (csv_reader file)) = length (users d))) \<and>
     (transactions d \<noteq> [] \<and> map_exc txn_row (transactions d) = Inr rows \<longrightarrow>
        (\<exists>file. fs (snd (rehydrate_from_mongodb w)) (TRANS_CSV (on_nt w)) = Some file \<and>
           file = csv_text ([''TID'', ''UID'', ''BID'', ''CID'', ''Type'', ''Timestamp''] # rows) \<and>
           hd (csv_reader file) = [''TID'', ''UID'', ''BID'', ''CID'', ''Type'', ''Timestamp''] \<and>
           length (tl (csv_reader file)) = length (transactions d))) \<and>
     (transactions d = [] \<longrightarrow>
        (\<exists>file. fs (snd (rehydrate_from_mongodb w)) (TRANS_CSV (on_nt w)) = Some file \<and>
           file = ''TID,UID,BID,CID,Type,Timestamp'' @ [LF] \<and>
           csv_reader file = [[''TID'', ''UID'', ''BID'', ''CID'', ''Type'', ''Timestamp'']])) \<and>
     (books d = [] \<longrightarrow>
        fs (snd (rehydrate_from_mongodb w)) (BOOKS_CSV (on_nt w)) = fs w (BOOKS_CSV (on_nt w))) \<and>
     (users d = [] \<longrightarrow>
        fs (snd (rehydrate_from_mongodb w)) (USERS_CSV (on_nt w)) = fs w (USERS_CSV (on_nt w)))"
proof -
  assume dw: "db w = Some d" and up: "reachable d"
  let ?w = "snd (rehydrate_from_mongodb w)"
  let ?HB = "[''ISBN'', ''Title'', ''Author'', ''Category'', ''Copies'']"
  let ?HU = "[''UserID'', ''Name'', ''Email'', ''Type'']"
  let ?HT = "[''TID'', ''UID'', ''BID'', ''CID'', ''Type'', ''Timestamp'']"
  note dp = data_paths_distinct [of "on_nt w"]
  have b: "books d \<noteq> [] \<longrightarrow>
      fs ?w (BOOKS_CSV (on_nt w)) = Some (csv_text (?HB # map book_row (books d)))"
    using dw up dp
    by (auto simp: rehydrate_from_mongodb_def find_all_def write_file_def Let_def
          write_rows_total csv_text_def BOOKS_FIELDS_def split: prod.splits)
  have u: "users d \<noteq> [] \<longrightarrow>
      fs ?w (USERS_CSV (on_nt w)) = Some (csv_text (?HU # map user_row (users d)))"
    using dw up dp
    by (auto simp: rehydrate_from_mongodb_def find_all_def write_file_def Let_def
          write_rows_total csv_text_def USERS_FIELDS_def split: prod.splits)
  have t: "transactions d \<noteq> [] \<and> map_exc txn_row (transactions d) = Inr rows \<longrightarrow>
      fs ?w (TRANS_CSV (on_nt w)) = Some (csv_text (?HT # rows))"
    using dw up dp
    by (auto simp: rehydrate_from_mongodb_def find_all_def write_file_def Let_def
          write_rows_ok csv_text_def TRANS_FIELDS_def split: prod.splits)
  have e: "transactions d = [] \<longrightarrow>
      fs ?w (TRANS_CSV (on_nt w)) = Some (''TID,UID,BID,CID,Type,Timestamp'' @ [LF])"
    using dw up dp
    by (auto simp: rehydrate_from_mongodb_def find_all_def write_file_def Let_def
          TRANS_HEADER_ONLY_def split: prod.splits)
  have k: "(books d = [] \<longrightarrow> fs ?w (BOOKS_CSV (on_nt w)) = fs w (BOOKS_CSV (on_nt w))) \<and>
      (users d = [] \<longrightarrow> fs ?w (USERS_CSV (on_nt w)) = fs w (USERS_CSV (on_nt w)))"
    using dw up dp
    by (auto simp: rehydrate_from_mongodb_def find_all_def write_file_def Let_def
          split: prod.splits)
  have rb: "hd (csv_reader (csv_text (?HB # map book_row (books d)))) = ?HB \<and>
      length (tl (csv_reader (csv_text (?HB # map book_row (books d))))) = length (books d)"
    using read_back [of ?HB "map book_row (books d)"] by (simp add: book_row_def)
  have ru: "hd (csv_reader (csv_text (?HU # map user_row (users d)))) = ?HU \<and>
      length (tl (csv_reader (csv_text (?HU # map user_row (users d))))) = length (users d)"
    using read_back [of ?HU "map user_row (users d)"] by (simp add: user_row_def)
  have rt: "map_exc txn_row (transactions d) = Inr rows \<longrightarrow>
      hd (csv_reader (csv_text (?HT # rows))) = ?HT \<and>
      length (tl (csv_reader (csv_text (?HT # rows)))) = length (transactions d)"
  proof
    assume m: "map_exc txn_row (transactions d) = Inr rows"
    have "\<forall>r \<in> set rows. 2 \<le> length r"
    proof
      fix r assume "r \<in> set rows"
      with map_exc_set [OF m] obtain t where "txn_row t = Inr r" by blast
      then have "length r = 6" by (rule txn_row_length)
      then show "2 \<le> length r" by simp
    qed
    with read_back [of ?HT rows] map_exc_length [OF m]
    show "hd (csv_reader (csv_text (?HT # rows))) = ?HT \<and>
      length (tl (csv_reader (csv_text (?HT # rows)))) = length (transactions d)"
      by simp
  qed
  from b u t e k rb ru rt header_only_read show ?thesis by simp
qed

theorem rehydrate_files_witness:
  "db stocked_world = Some stocked_store \<and> reachable stocked_store \<and>
   books stocked_store \<noteq> [] \<and> users stocked_store \<noteq> [] \<and> transactions stocked_store \<noteq> [] \<and>
   fs (snd (rehydrate_from_mongodb stocked_world)) TmpBooks =
     Some (''ISBN,Title,Author,Category,Copies'' @ [CR, LF] @
           ''555,Dune,'' @ [DQ] @ ''Herbert, Frank'' @ [DQ] @ '',SF,4'' @ [CR, LF]) \<and>
   fs (snd (rehydrate_from_mongodb stocked_world)) TmpUsers =
     Some (''UserID,Name,Email,Type'' @ [CR, LF] @
           ''U9,Zed,U9@library.edu,STUDENT'' @ [CR, LF]) \<and>
   fs (snd (rehydrate_from_mongodb stocked_world)) TmpTrans =
     Some (''TID,UID,BID,CID,Type,Timestamp'' @ [CR, LF] @
           ''TXN_1,U1,555,,ISSUE,1700000000'' @ [CR, LF]) \<and>
   db stale_world = Some empty_store \<and> reachable empty_store \<and>
   books empty_store = [] \<and> users empty_store = [] \<and> transactions empty_store = [] \<and>
   fs (snd (rehydrate_from_mongodb stale_world)) TmpBooks = fs stale_world TmpBooks \<and>
   fs (snd (rehydrate_from_mongodb stale_world)) TmpUsers = None \<and>
   fs (snd (rehydrate_from_mongodb stale_world)) TmpTrans =
     Some (''TID,UID,BID,CID,Type,Timestamp'' @ [LF])"
proof -
  have h: "db stocked_world = Some stocked_store" "reachable stocked_store"
    by (simp_all add: stocked_world_def plain_world_def stocked_store_def)
  have g: "books stocked_store \<noteq> []" "users stocked_store \<noteq> []" "transactions stocked_store \<noteq> []"
    by (simp_all add: stocked_store_def)
  have rows: "map_exc txn_row (transactions stocked_store) =
     Inr [[''TXN_1'', ''U1'', ''555'', [], ''ISSUE'', ''1700000000'']]"
    by (simp add: stocked_store_def txn_row_def doc_get_def ebind_def show_int_def
          show_nat.simps digit_char_def)
  have w: "on_nt stocked_world = False"
    by (simp add: stocked_world_def plain_world_def)
  have b: "csv_text ([''ISBN'', ''Title'', ''Author'', ''Category'', ''Copies'']
                     # map book_row (books stocked_store)) =
      ''ISBN,Title,Author,Category,Copies'' @ [CR, LF] @
      ''555,Dune,'' @ [DQ] @ ''Herbert, Frank'' @ [DQ] @ '',SF,4'' @ [CR, LF]"
    by (simp add: csv_text_def csv_line_def csv_cell_def needs_quote_def
          book_row_def doc_get_def stocked_store_def show_int_def show_nat.simps digit_char_def)
  have u: "csv_text ([''UserID'', ''Name'', ''Email'', ''Type''] # map user_row (users stocked_store)) =
      ''UserID,Name,Email,Type'' @ [CR, LF] @ ''U9,Zed,U9@library.edu,STUDENT'' @ [CR, LF]"
    by (simp add: csv_text_def csv_line_def csv_cell_def needs_quote_def
          user_row_def doc_get_def stocked_store_def)
  have t: "csv_text ([''TID'', ''UID'', ''BID'', ''CID'', ''Type'', ''Timestamp'']
                     # [[''TXN_1'', ''U1'', ''555'', [], ''ISSUE'', ''1700000000'']]) =
      ''TID,UID,BID,CID,Type,Timestamp'' @ [CR, LF] @ ''TXN_1,U1,555,,ISSUE,1700000000'' @ [CR, LF]"
    by (simp add: csv_text_def csv_line_def csv_cell_def needs_quote_def)
  from rehydrate_files [OF h, of "[[''TXN_1'', ''U1'', ''555'', [], ''ISSUE'', ''1700000000'']]"]
    g rows
  have s: "fs (snd (rehydrate_from_mongodb stocked_world)) TmpBooks =
     Some (''ISBN,Title,Author,Category,Copies'' @ [CR, LF] @
           ''555,Dune,'' @ [DQ] @ ''Herbert, Frank'' @ [DQ] @ '',SF,4'' @ [CR, LF]) \<and>
   fs (snd (rehydrate_from_mongodb stocked_world)) TmpUsers =
     Some (''UserID,Name,Email,Type'' @ [CR, LF] @
           ''U9,Zed,U9@library.edu,STUDENT'' @ [CR, LF]) \<and>
   fs (snd (rehydrate_from_mongodb stocked_world)) TmpTrans =
     Some (''TID,UID,BID,CID,Type,Timestamp'' @ [CR, LF] @
           ''TXN_1,U1,555,,ISSUE,1700000000'' @ [CR, LF])"
    by (simp add: w b u t BOOKS_CSV_def USERS_CSV_def TRANS_CSV_def)
  have h2: "db stale_world = Some empty_store" "reachable empty_store"
    by (simp_all add: stale_world_def plain_world_def empty_store_def)
  have g2: "books empty_store = []" "users empty_store = []" "transactions empty_store = []"
    by (simp_all add: empty_store_def)
  have w2: "on_nt stale_world = False" "fs stale_world TmpUsers = None"
    by (simp_all add: stale_world_def plain_world_def)
  from rehydrate_files [OF h2, of "[]"] g2
  have e: "fs (snd (rehydrate_from_mongodb stale_world)) TmpBooks = fs stale_world TmpBooks \<and>
   fs (snd (rehydrate_from_mongodb stale_world)) TmpUsers = None \<and>
   fs (snd (rehydrate_from_mongodb stale_world)) TmpTrans =
     Some (''TID,UID,BID,CID,Type,Timestamp'' @ [LF])"
    by (simp add: w2 BOOKS_CSV_def USERS_CSV_def TRANS_CSV_def)
  from h g s h2 g2 e show ?thesis by simp
qed

text \<open>
  Claim C4 as it is worded fails for an empty books collection: a books file already in
  the data directory is not overwritten, and keeps a data row for which the store has no
  document.
\<close>

theorem rehydrate_files_counterexample:
  "db stale_world = Some empty_store \<and> reachable empty_store \<and> books empty_store = [] \<and>
   fs stale_world (BOOKS_CSV (on_nt stale_world)) = Some STALE_BOOKS \<and>
   fs (snd (rehydrate_from_mongodb stale_world)) (BOOKS_CSV (on_nt stale_world)) = Some STALE_BOOKS \<and>
   csv_reader STALE_BOOKS =
     [[''ISBN'', ''Title'', ''Author'', ''Category'', ''Copies''],
      [''111'', ''Old Title'', ''Old Author'', ''Old'', ''2'']] \<and>
   length (tl (csv_reader STALE_BOOKS)) = 1 \<and> length (books empty_store) = 0"
proof -
  have a: "db stale_world = Some empty_store \<and> reachable empty_store \<and> books empty_store = [] \<and>
      fs stale_world (BOOKS_CSV (on_nt stale_world)) = Some STALE_BOOKS"
    by (simp add: stale_world_def plain_world_def empty_store_def BOOKS_CSV_def)
  have b: "fs (snd (rehydrate_from_mongodb stale_world)) (BOOKS_CSV (on_nt stale_world)) = Some STALE_BOOKS"
    by (simp add: stale_world_def plain_world_def empty_store_def rehydrate_from_mongodb_def
          find_all_def write_file_def BOOKS_CSV_def USERS_CSV_def TRANS_CSV_def)
  have c: "csv_reader STALE_BOOKS =
     [[''ISBN'', ''Title'', ''Author'', ''Category'', ''Copies''],
      [''111'', ''Old Title'', ''Old Author'', ''Old'', ''2'']]"
    by code_simp
  from a b c show ?thesis by simp
qed

section \<open>Where the code departs from the claims\<close>

text \<open>
  Claim C1, as the code behaves.  With the executable absent and no process recorded,
  \<^verbatim>\<open>send_to_backend\<close> starts no process, whatever the payload.  It does not answer from
  the snapshot either: the mock branch returns nothing, the poll of the missing handle
  raises, and the caller gets the failure response with that exception's text.  The
  state after the call is again one without executable and without process, so every
  later call ends the same way.
\<close>

theorem absent_engine_call_fails:
  "\<not> exe_exists w \<Longrightarrow> BACKEND_PROCESS w = None \<Longrightarrow>
     \<exists>w1. send_to_backend payload w = (Inr (failure (str_exc (none_has_no ''poll''))), w1) \<and>
          \<not> exe_exists w1 \<and> BACKEND_PROCESS w1 = None \<and> USE_MOCK_BACKEND w1 \<and>
          spawned w1 = spawned w \<and>
          events_since w w1 =
            [Call payload, Acquire, Release, Return (failure (str_exc (none_has_no ''poll'')))]"
  by (simp add: send_to_backend_def send_body_def start_backend_def reset_if_dead_def
        mock_branch_frame resolve_def events_since_def)

theorem absent_engine_call_fails_witness:
  "\<not> exe_exists absent_world \<and> BACKEND_PROCESS absent_world = None \<and>
   fs absent_world local_books_path = Some BUNDLED_BOOKS \<and>
   fst (send_to_backend SEARCH_TOLKIEN absent_world) =
     Inr (JDict [(''success'', JBool False),
                 (''message'', JStr (apos @ ''NoneType'' @ apos @ '' object has no attribute '' @ apos @ ''poll'' @ apos))]) \<and>
   fst (send_to_backend SEARCH_TOLKIEN (snd (send_to_backend SEARCH_TOLKIEN absent_world))) =
     Inr (JDict [(''success'', JBool False),
                 (''message'', JStr (apos @ ''NoneType'' @ apos @ '' object has no attribute '' @ apos @ ''poll'' @ apos))])"
proof -
  have h: "\<not> exe_exists absent_world" "BACKEND_PROCESS absent_world = None"
    "fs absent_world local_books_path = Some BUNDLED_BOOKS"
    by (simp_all add: absent_world_def plain_world_def bundled_files_def local_books_path_def)
  from absent_engine_call_fails [OF h(1,2), of SEARCH_TOLKIEN] obtain w1 where
    a: "send_to_backend SEARCH_TOLKIEN absent_world = (Inr (failure (str_exc (none_has_no ''poll''))), w1)"
      "\<not> exe_exists w1" "BACKEND_PROCESS w1 = None"
    by blast
  from absent_engine_call_fails [OF a(2,3), of SEARCH_TOLKIEN] obtain w2 where
    b: "send_to_backend SEARCH_TOLKIEN w1 = (Inr (failure (str_exc (none_has_no ''poll''))), w2)"
    by blast
  from h a(1) b show ?thesis by (simp add: failure_def none_has_no_def)
qed

text \<open>
  Claim C6, as the code behaves.  Migration stores the \<open>Type\<close> cell of a row as it is
  written in the file.  From a bundled users file with three rows of types \<open>student\<close>,
  \<open>faculty\<close> and \<open>STUDENT\<close> an empty users collection gets three documents with exactly
  these types.
\<close>

theorem legacy_users_type_verbatim:
  "db legacy_world = Some empty_store \<and> users empty_store = [] \<and>
   fs legacy_world local_users_path = Some LEGACY_USERS \<and>
   length (tl (csv_reader LEGACY_USERS)) = 3 \<and>
   map (\<lambda>u. doc_get u ''type'' PNone) (users (the (db (startup_sync legacy_world)))) =
     [PStr ''student'', PStr ''faculty'', PStr ''STUDENT'']"
proof -
  have a: "db legacy_world = Some empty_store \<and> users empty_store = [] \<and>
      fs legacy_world local_users_path = Some LEGACY_USERS"
    by (simp add: legacy_world_def plain_world_def empty_store_def bundled_files_def local_users_path_def)
  have b: "length (tl (csv_reader LEGACY_USERS)) = 3" by code_simp
  have c: "map (\<lambda>u. doc_get u ''type'' PNone) (users (the (db (startup_sync legacy_world)))) =
     [PStr ''student'', PStr ''faculty'', PStr ''STUDENT'']"
    by code_simp
  from a b c show ?thesis by simp
qed

end
